theory Spec2Isabelle
  imports Complex_Main "HOL-Library.AList" "HOL-Library.Sublist" "HOL-Library.Log_Nat"
begin

section \<open>Numbers, points and the geometry helpers of \<^verbatim>\<open>utils.js\<close>\<close>

text \<open>
  A JavaScript number is an IEEE 754 binary64 value. The scene store, the hit-testing
  and the history are modelled over exact reals: what they decide does not depend on how
  a quotient is rounded. The viewport transforms are modelled twice. The functions
  \<open>screenToWorld\<close>, \<open>worldToScreen\<close> and \<open>handleWheel\<close> compute over exact reals: they are
  the arithmetic the source writes down, without rounding. The functions whose names end
  in \<open>64\<close> round every operation to binary64 as the engine running the source does, and
  return \<open>None\<close> when an operation leaves the finite numbers.

  In the exact functions a division by zero has no counterpart of JavaScript's non-finite
  result. The source guards the one in \<^verbatim>\<open>pointToLineDistance\<close> (the
  \<^verbatim>\<open>lenSq === 0\<close> test); the one in \<^verbatim>\<open>screenToWorld\<close> needs \<open>zoom \<noteq> 0\<close>. The
  hit-testing theorems are stated relative to the world point \<^verbatim>\<open>screenToWorld\<close> returns.

  Field names carry a short prefix where the JavaScript name (\<^verbatim>\<open>x\<close>, \<^verbatim>\<open>y\<close>,
  \<^verbatim>\<open>id\<close>, \<^verbatim>\<open>from\<close>, \<^verbatim>\<open>to\<close>, \<^verbatim>\<open>type\<close>, \<^verbatim>\<open>name\<close>) would collide with a
  variable or a constant of HOL.
\<close>

record point =
  px :: real
  py :: real

record rect =
  rx :: real
  ry :: real
  width :: real
  height :: real

text \<open>\<^verbatim>\<open>Utils.pointInRect(point, rect)\<close>\<close>

definition pointInRect :: "point \<Rightarrow> rect \<Rightarrow> bool" where
  "pointInRect p r \<longleftrightarrow>
     px p \<ge> rx r \<and> px p \<le> rx r + width r \<and> py p \<ge> ry r \<and> py p \<le> ry r + height r"

text \<open>\<^verbatim>\<open>Utils.clamp(value, min, max) = Math.min(Math.max(value, min), max)\<close>\<close>

definition clamp :: "real \<Rightarrow> real \<Rightarrow> real \<Rightarrow> real" where
  "clamp v lo hi = min (max v lo) hi"

text \<open>\<^verbatim>\<open>Utils.distance(point1, point2)\<close> and \<^verbatim>\<open>Utils.lerp(start, end, factor)\<close>\<close>

definition distance :: "point \<Rightarrow> point \<Rightarrow> real" where
  "distance point1 point2 =
     (let dx = px point2 - px point1; dy = py point2 - py point1
      in sqrt (dx * dx + dy * dy))"


section \<open>The scene store of \<^verbatim>\<open>CanvasEngine\<close>\<close>

text \<open>
  A node as \<^verbatim>\<open>addNode\<close> stores it. \<open>ndata\<close> is the \<^verbatim>\<open>data\<close> object and \<open>nextra\<close>
  the remaining own properties (icon, description, code, ...), both as key/value lists.
\<close>

record node =
  nid :: string
  nx :: real
  ny :: real
  label :: string
  layer :: string
  ntype :: string
  ndata :: "(string \<times> string) list"
  nextra :: "(string \<times> string) list"

text \<open>
  The argument of \<^verbatim>\<open>addNode\<close>: every property may be absent (\<open>None\<close>).
\<close>

record nodeData =
  d_id :: "string option"
  d_x :: "real option"
  d_y :: "real option"
  d_label :: "string option"
  d_layer :: "string option"
  d_type :: "string option"
  d_data :: "(string \<times> string) list option"
  d_extra :: "(string \<times> string) list"

record connection =
  cid :: string
  cfrom :: string
  cto :: string
  clabel :: string
  ctype :: string
  cextra :: "(string \<times> string) list"

text \<open>The object handed to \<^verbatim>\<open>addConnection\<close>, each property possibly absent.\<close>

record connectionSpec =
  s_id :: "string option"
  s_from :: "string option"
  s_to :: "string option"
  s_label :: "string option"
  s_type :: "string option"
  s_extra :: "(string \<times> string) list"

text \<open>
  \<^verbatim>\<open>addConnection(connection)\<close> is dynamically typed and is called both with an object
  and (in \<^verbatim>\<open>app.js\<close>) with strings; the argument is therefore a tagged value.
\<close>

datatype jsArg = JObject connectionSpec | JString string

record layerInfo =
  visible :: bool
  color :: string
  lname :: string

record viewport =
  vx :: real
  vy :: real
  zoom :: real
  minZoom :: real
  maxZoom :: real

record nodeSize =
  ns_width :: real
  ns_height :: real

text \<open>
  The mutable state of one \<^verbatim>\<open>CanvasEngine\<close>. \<^verbatim>\<open>nodes\<close> and \<^verbatim>\<open>layers\<close> are
  JavaScript \<^verbatim>\<open>Map\<close>s, which iterate in insertion order: they are association lists
  with distinct keys, \<^verbatim>\<open>set\<close> being \<^const>\<open>AList.update\<close> (an existing key keeps its
  place, a new key goes to the end) and \<^verbatim>\<open>delete\<close> being \<^const>\<open>AList.delete\<close>.
\<close>

record engine =
  config_nodeSize :: nodeSize
  config_padding :: real
  nodes :: "(string \<times> node) list"
  connections :: "connection list"
  layers :: "(string \<times> layerInfo) list"
  selectedNode :: "node option"
  hoveredNode :: "node option"
  selectedConnection :: "connection option"
  hoveredConnection :: "connection option"
  highlightedNode :: "node option"
  highlightedNodes :: "node list"
  highlightedConnections :: "connection list"
  viewport :: viewport
  isDragging :: bool
  dragStart :: "point option"
  lastMousePos :: "point option"
  dragThreshold :: real
  hasDragged :: bool

section \<open>Viewport transforms\<close>

definition screenToWorld :: "engine \<Rightarrow> point \<Rightarrow> point" where
  "screenToWorld e screenPos =
     \<lparr> px = (px screenPos - vx (viewport e)) / zoom (viewport e),
       py = (py screenPos - vy (viewport e)) / zoom (viewport e) \<rparr>"

definition worldToScreen :: "engine \<Rightarrow> point \<Rightarrow> point" where
  "worldToScreen e worldPos =
     \<lparr> px = px worldPos * zoom (viewport e) + vx (viewport e),
       py = py worldPos * zoom (viewport e) + vy (viewport e) \<rparr>"

text \<open>
  \<^verbatim>\<open>handleWheel(e)\<close>: the event contributes the mouse position and \<^verbatim>\<open>deltaY\<close>.
  Rendering and the \<^verbatim>\<open>onZoomChange\<close> callback do not write engine state.
\<close>

definition zoomFactor :: "real \<Rightarrow> real" where
  "zoomFactor deltaY = (if deltaY > 0 then 9 / 10 else 11 / 10)"

definition handleWheel :: "engine \<Rightarrow> point \<Rightarrow> real \<Rightarrow> engine" where
  "handleWheel e mousePos deltaY =
     (let v = viewport e;
          newZoom = clamp (zoom v * zoomFactor deltaY) (minZoom v) (maxZoom v)
      in if newZoom \<noteq> zoom v then
           (let zoomRatio = newZoom / zoom v
            in e\<lparr> viewport := v\<lparr> vx := px mousePos - (px mousePos - vx v) * zoomRatio,
                                  vy := py mousePos - (py mousePos - vy v) * zoomRatio,
                                  zoom := newZoom \<rparr> \<rparr>)
         else e)"

section \<open>Binary64 arithmetic and the viewport in doubles\<close>

text \<open>
  A finite binary64 value is a real \<open>m * 2^e\<close> with \<open>\<bar>m\<bar> < 2^53\<close> and
  \<open>-1074 \<le> e \<le> 971\<close>. \<open>fl x\<close> is the binary64 value nearest to the real \<open>x\<close>, ties going
  to the even significand: \<open>expo x\<close> is the binary exponent of \<open>x\<close>, not below the
  exponent \<open>-1022\<close> of the subnormal numbers, and the significand is rounded to an integer
  multiple of \<open>2^(e - 52)\<close>. A result of magnitude \<open>2^1024\<close> or more is an overflow, which
  JavaScript turns into an infinity: \<open>None\<close>. The two zeros of binary64 are one value here.
\<close>

definition pow2 :: "int \<Rightarrow> real" where
  "pow2 e = (if 0 \<le> e then 2 ^ nat e else 1 / 2 ^ nat (- e))"

definition roundEven :: "real \<Rightarrow> int" where
  "roundEven y =
     (let f = \<lfloor>y\<rfloor>
      in if y - of_int f < 1 / 2 then f
         else if y - of_int f > 1 / 2 then f + 1
         else if even f then f else f + 1)"

definition expo :: "real \<Rightarrow> int" where
  "expo x = (if 1 \<le> \<bar>x\<bar> then bitlen \<lfloor>\<bar>x\<bar>\<rfloor> - 1 else - bitlen (\<lceil>1 / \<bar>x\<bar>\<rceil> - 1))"

definition fl :: "real \<Rightarrow> real option" where
  "fl x =
     (if x = 0 then Some 0
      else
        (let e = max (expo x) (- 1022);
             r = of_int (roundEven (x * pow2 (52 - e))) * pow2 (e - 52)
         in if \<bar>r\<bar> < pow2 1024 then Some r else None))"

text \<open>
  The arithmetic operators of JavaScript on finite operands: the exact result, rounded.
  A division by zero gives an infinity or NaN: \<open>None\<close>.
\<close>

definition fadd :: "real \<Rightarrow> real \<Rightarrow> real option" where
  "fadd a b = fl (a + b)"

definition fsub :: "real \<Rightarrow> real \<Rightarrow> real option" where
  "fsub a b = fl (a - b)"

definition fmul :: "real \<Rightarrow> real \<Rightarrow> real option" where
  "fmul a b = fl (a * b)"

definition fdiv :: "real \<Rightarrow> real \<Rightarrow> real option" where
  "fdiv a b = (if b = 0 then None else fl (a / b))"

text \<open>
  \<^verbatim>\<open>screenToWorld\<close> and \<^verbatim>\<open>worldToScreen\<close> in doubles, one coordinate at a time:
  \<^verbatim>\<open>(s - pan) / zoom\<close> and \<^verbatim>\<open>w * zoom + pan\<close>. The point is \<open>None\<close> when one of its
  coordinates is not finite.
\<close>

definition toWorld64 :: "real \<Rightarrow> real \<Rightarrow> real \<Rightarrow> real option" where
  "toWorld64 s pan z = Option.bind (fsub s pan) (\<lambda>d. fdiv d z)"

definition toScreen64 :: "real \<Rightarrow> real \<Rightarrow> real \<Rightarrow> real option" where
  "toScreen64 w z pan = Option.bind (fmul w z) (\<lambda>m. fadd m pan)"

definition screenToWorld64 :: "engine \<Rightarrow> point \<Rightarrow> point option" where
  "screenToWorld64 e screenPos =
     (case (toWorld64 (px screenPos) (vx (viewport e)) (zoom (viewport e)),
            toWorld64 (py screenPos) (vy (viewport e)) (zoom (viewport e))) of
        (Some wx, Some wy) \<Rightarrow> Some \<lparr> px = wx, py = wy \<rparr>
      | _ \<Rightarrow> None)"

definition worldToScreen64 :: "engine \<Rightarrow> point \<Rightarrow> point option" where
  "worldToScreen64 e worldPos =
     (case (toScreen64 (px worldPos) (zoom (viewport e)) (vx (viewport e)),
            toScreen64 (py worldPos) (zoom (viewport e)) (vy (viewport e))) of
        (Some sx, Some sy) \<Rightarrow> Some \<lparr> px = sx, py = sy \<rparr>
      | _ \<Rightarrow> None)"

text \<open>\<^verbatim>\<open>worldToScreen(screenToWorld(p))\<close> in doubles.\<close>

definition roundTrip64 :: "engine \<Rightarrow> point \<Rightarrow> point option" where
  "roundTrip64 e p = Option.bind (screenToWorld64 e p) (worldToScreen64 e)"

text \<open>
  \<^verbatim>\<open>handleWheel\<close> in doubles. The literals \<^verbatim>\<open>0.9\<close> and \<^verbatim>\<open>1.1\<close> denote the binary64
  values nearest to them. \<open>zoomToward64\<close> is one coordinate of the pan update,
  \<^verbatim>\<open>m - (m - pan) * zoomRatio\<close>. The result is \<open>None\<close> as soon as one operation
  overflows or divides by zero; how the source goes on with an infinity or a NaN from
  there is not modelled.
\<close>

definition zoomFactor64 :: "real \<Rightarrow> real" where
  "zoomFactor64 deltaY =
     (if deltaY > 0 then 8106479329266893 / 9007199254740992
      else 2476979795053773 / 2251799813685248)"

definition zoomToward64 :: "real \<Rightarrow> real \<Rightarrow> real \<Rightarrow> real option" where
  "zoomToward64 m pan zoomRatio =
     Option.bind (fsub m pan) (\<lambda>d. Option.bind (fmul d zoomRatio) (\<lambda>t. fsub m t))"

definition handleWheel64 :: "engine \<Rightarrow> point \<Rightarrow> real \<Rightarrow> engine option" where
  "handleWheel64 e mousePos deltaY =
     (let v = viewport e
      in case fmul (zoom v) (zoomFactor64 deltaY) of
           None \<Rightarrow> None
         | Some scaled \<Rightarrow>
             (let newZoom = clamp scaled (minZoom v) (maxZoom v)
              in if newZoom \<noteq> zoom v then
                   (case fdiv newZoom (zoom v) of
                      None \<Rightarrow> None
                    | Some zoomRatio \<Rightarrow>
                        (case (zoomToward64 (px mousePos) (vx v) zoomRatio,
                               zoomToward64 (py mousePos) (vy v) zoomRatio) of
                           (Some x', Some y') \<Rightarrow>
                             Some (e\<lparr> viewport := v\<lparr> vx := x', vy := y', zoom := newZoom \<rparr> \<rparr>)
                         | _ \<Rightarrow> None))
                 else Some e))"

text \<open>
  A bound on how far rounding moves one world coordinate of the pivot: \<open>a\<close> is the rounded
  screen offset of the pivot from the pan, \<open>z\<close> and \<open>n\<close> the zoom before and after, \<open>m\<close> the
  screen coordinate of the pivot.
\<close>

definition pivotDrift :: "real \<Rightarrow> real \<Rightarrow> real \<Rightarrow> real \<Rightarrow> real" where
  "pivotDrift a z n m =
     (7 * \<bar>a / z\<bar> + 2 * \<bar>m / n\<bar>) / 2 ^ 53 + (2 * \<bar>a / n\<bar> + 4 / \<bar>n\<bar> + 2) * pow2 (- 1075)"

text \<open>\<^verbatim>\<open>screenToWorld(p)\<close> after \<^verbatim>\<open>handleWheel\<close> at \<open>p\<close>, in doubles.\<close>

definition pivotAfterWheel64 :: "engine \<Rightarrow> point \<Rightarrow> real \<Rightarrow> point option" where
  "pivotAfterWheel64 e p deltaY =
     Option.bind (handleWheel64 e p deltaY) (\<lambda>e'. screenToWorld64 e' p)"

section \<open>Layers\<close>

text \<open>The \<^verbatim>\<open>layerInfo\<close> argument of \<^verbatim>\<open>addLayer\<close>, each property possibly absent.\<close>

record layerSpec =
  l_visible :: "bool option"
  l_color :: "string option"
  l_name :: "string option"

text \<open>
  An object literal \<^verbatim>\<open>{ f: d.f || dflt, ...d }\<close> ends with \<^verbatim>\<open>d.f\<close> when \<^verbatim>\<open>d\<close>
  has the property (the spread writes it last) and with the default when it is absent.
\<close>

definition orDefault :: "'a option \<Rightarrow> 'a \<Rightarrow> 'a" where
  "orDefault v dflt = (case v of Some a \<Rightarrow> a | None \<Rightarrow> dflt)"

definition addLayer :: "engine \<Rightarrow> string \<Rightarrow> layerSpec \<Rightarrow> engine" where
  "addLayer e layerId info =
     e\<lparr> layers := AList.update layerId
          \<lparr> visible = orDefault (l_visible info) True,
            color = orDefault (l_color info) ''#3b82f6'',
            lname = orDefault (l_name info) layerId \<rparr> (layers e) \<rparr>"

definition setLayerVisibility :: "engine \<Rightarrow> string \<Rightarrow> bool \<Rightarrow> engine \<times> bool" where
  "setLayerVisibility e layerId vis =
     (case map_of (layers e) layerId of
        Some l \<Rightarrow> (e\<lparr> layers := AList.update layerId (l\<lparr> visible := vis \<rparr>) (layers e) \<rparr>, True)
      | None \<Rightarrow> (e, False))"

definition isLayerVisible :: "engine \<Rightarrow> string \<Rightarrow> bool" where
  "isLayerVisible e layerId =
     (let l = map_of (layers e) layerId
      in if l = None \<and> length (layers e) = 0 then True
         else (case l of Some li \<Rightarrow> visible li | None \<Rightarrow> True))"

section \<open>Nodes and connections\<close>

text \<open>
  \<^verbatim>\<open>addNode(nodeData)\<close>. \<open>generated\<close> is the value \<^verbatim>\<open>Utils.generateId()\<close> returns
  when it is called (only for an absent or empty id).
\<close>

definition addNode :: "engine \<Rightarrow> nodeData \<Rightarrow> string \<Rightarrow> engine \<times> node" where
  "addNode e nodeData generated =
     (let nodeId = (case d_id nodeData of
                      Some i \<Rightarrow> if i = [] then generated else i
                    | None \<Rightarrow> generated);
          n = \<lparr> nid = orDefault (d_id nodeData) nodeId,
                nx = orDefault (d_x nodeData) 0,
                ny = orDefault (d_y nodeData) 0,
                label = orDefault (d_label nodeData) ''Node'',
                layer = orDefault (d_layer nodeData) ''default'',
                ntype = orDefault (d_type nodeData) ''default'',
                ndata = orDefault (d_data nodeData) [],
                nextra = d_extra nodeData \<rparr>
      in (e\<lparr> nodes := AList.update nodeId n (nodes e) \<rparr>, n))"

text \<open>
  \<^verbatim>\<open>removeNode(nodeId)\<close>: the class declares it twice; the later declaration (the one
  that also clears the selection) is the one in force.
\<close>

definition removeNode :: "engine \<Rightarrow> string \<Rightarrow> engine" where
  "removeNode e nodeId =
     e\<lparr> nodes := AList.delete nodeId (nodes e),
        connections := filter (\<lambda>conn. cfrom conn \<noteq> nodeId \<and> cto conn \<noteq> nodeId) (connections e),
        selectedNode := (case selectedNode e of
                           Some n \<Rightarrow> if nid n = nodeId then None else Some n
                         | None \<Rightarrow> None) \<rparr>"

text \<open>
  \<^verbatim>\<open>addConnection(connection)\<close>: an object with truthy (present, non-empty)
  \<^verbatim>\<open>from\<close> and \<^verbatim>\<open>to\<close> is stored; anything else is logged and \<^verbatim>\<open>null\<close> returned.
\<close>

definition addConnection :: "engine \<Rightarrow> jsArg \<Rightarrow> string \<Rightarrow> engine \<times> connection option" where
  "addConnection e arg generated =
     (case arg of
        JObject c \<Rightarrow>
          (case (s_from c, s_to c) of
             (Some f, Some t) \<Rightarrow>
               if f \<noteq> [] \<and> t \<noteq> [] then
                 (let conn = \<lparr> cid = orDefault (s_id c) generated,
                                cfrom = f, cto = t,
                                clabel = orDefault (s_label c) [],
                                ctype = orDefault (s_type c) ''default'',
                                cextra = s_extra c \<rparr>
                  in (e\<lparr> connections := connections e @ [conn] \<rparr>, Some conn))
               else (e, None)
           | _ \<Rightarrow> (e, None))
      | JString _ \<Rightarrow> (e, None))"

definition removeConnection :: "engine \<Rightarrow> string \<Rightarrow> string \<Rightarrow> engine \<times> bool" where
  "removeConnection e fromId toId =
     (let initialLength = length (connections e);
          kept = filter (\<lambda>conn. \<not> (cfrom conn = fromId \<and> cto conn = toId) \<and>
                                \<not> (cfrom conn = toId \<and> cto conn = fromId)) (connections e)
      in (e\<lparr> connections := kept \<rparr>, length kept < initialLength))"

definition clearHighlights :: "engine \<Rightarrow> engine" where
  "clearHighlights e =
     e\<lparr> highlightedNode := None, highlightedNodes := [], highlightedConnections := [] \<rparr>"

definition clearAll :: "engine \<Rightarrow> engine" where
  "clearAll e =
     clearHighlights (e\<lparr> nodes := [], connections := [], selectedNode := None, hoveredNode := None \<rparr>)"

text \<open>The state the constructor builds (no \<^verbatim>\<open>options\<close> given).\<close>

definition newEngine :: engine where
  "newEngine =
     \<lparr> config_nodeSize = \<lparr> ns_width = 120, ns_height = 80 \<rparr>,
       config_padding = 20,
       nodes = [], connections = [], layers = [],
       selectedNode = None, hoveredNode = None,
       selectedConnection = None, hoveredConnection = None,
       highlightedNode = None, highlightedNodes = [], highlightedConnections = [],
       viewport = \<lparr> vx = 0, vy = 0, zoom = 1, minZoom = 1 / 10, maxZoom = 3 \<rparr>,
       isDragging = False, dragStart = None, lastMousePos = None,
       dragThreshold = 5, hasDragged = False \<rparr>"

section \<open>Hit-testing\<close>

text \<open>
  \<^verbatim>\<open>getNodeAtPosition(screenPos)\<close>: the \<^verbatim>\<open>for ... of this.nodes.values()\<close> loop, with
  its \<^verbatim>\<open>continue\<close> and its early \<^verbatim>\<open>return\<close>.
\<close>

definition nodeRect :: "engine \<Rightarrow> node \<Rightarrow> rect" where
  "nodeRect e n =
     \<lparr> rx = nx n - ns_width (config_nodeSize e) / 2,
       ry = ny n - ns_height (config_nodeSize e) / 2,
       width = ns_width (config_nodeSize e),
       height = ns_height (config_nodeSize e) \<rparr>"

fun nodeScan :: "engine \<Rightarrow> point \<Rightarrow> node list \<Rightarrow> node option" where
  "nodeScan e worldPos [] = None"
| "nodeScan e worldPos (n # rest) =
     (if \<not> isLayerVisible e (layer n) then nodeScan e worldPos rest
      else if pointInRect worldPos (nodeRect e n) then Some n
      else nodeScan e worldPos rest)"

definition getNodeAtPosition :: "engine \<Rightarrow> point \<Rightarrow> node option" where
  "getNodeAtPosition e screenPos =
     (let worldPos = screenToWorld e screenPos
      in nodeScan e worldPos (map snd (nodes e)))"

definition pointToLineDistance :: "point \<Rightarrow> point \<Rightarrow> point \<Rightarrow> real" where
  "pointToLineDistance p lineStart lineEnd =
     (let A = px p - px lineStart;
          B = py p - py lineStart;
          C = px lineEnd - px lineStart;
          D = py lineEnd - py lineStart;
          dot = A * C + B * D;
          lenSq = C * C + D * D
      in if lenSq = 0 then sqrt (A * A + B * B)
         else
           (let param = dot / lenSq;
                xx = (if param < 0 then px lineStart
                      else if param > 1 then px lineEnd
                      else px lineStart + param * C);
                yy = (if param < 0 then py lineStart
                      else if param > 1 then py lineEnd
                      else py lineStart + param * D);
                dx = px p - xx;
                dy = py p - yy
            in sqrt (dx * dx + dy * dy)))"

text \<open>The click tolerance, \<^verbatim>\<open>const tolerance = 8\<close>.\<close>

definition tolerance :: real where
  "tolerance = 8"

fun connectionScan :: "engine \<Rightarrow> point \<Rightarrow> connection list \<Rightarrow> connection option" where
  "connectionScan e worldPos [] = None"
| "connectionScan e worldPos (conn # rest) =
     (case (map_of (nodes e) (cfrom conn), map_of (nodes e) (cto conn)) of
        (Some fromNode, Some toNode) \<Rightarrow>
          if \<not> isLayerVisible e (layer fromNode) \<or> \<not> isLayerVisible e (layer toNode)
          then connectionScan e worldPos rest
          else
            (let fromCenter = \<lparr> px = nx fromNode, py = ny fromNode \<rparr>;
                 toCenter = \<lparr> px = nx toNode, py = ny toNode \<rparr>;
                 distance = pointToLineDistance worldPos fromCenter toCenter
             in if distance \<le> tolerance then Some conn
                else connectionScan e worldPos rest)
      | _ \<Rightarrow> connectionScan e worldPos rest)"

definition getConnectionAtPosition :: "engine \<Rightarrow> point \<Rightarrow> connection option" where
  "getConnectionAtPosition e screenPos =
     (let worldPos = screenToWorld e screenPos
      in connectionScan e worldPos (connections e))"

text \<open>
  The test the loop body of \<^verbatim>\<open>getConnectionAtPosition\<close> applies to one connection: both
  endpoints resolve, both lie on visible layers, and the world point is within the
  tolerance of the segment between their centers.
\<close>

definition connectionHit :: "engine \<Rightarrow> point \<Rightarrow> connection \<Rightarrow> bool" where
  "connectionHit e worldPos conn =
     (case (map_of (nodes e) (cfrom conn), map_of (nodes e) (cto conn)) of
        (Some fromNode, Some toNode) \<Rightarrow>
          isLayerVisible e (layer fromNode) \<and> isLayerVisible e (layer toNode) \<and>
          pointToLineDistance worldPos \<lparr> px = nx fromNode, py = ny fromNode \<rparr>
                                       \<lparr> px = nx toNode, py = ny toNode \<rparr> \<le> tolerance
      | _ \<Rightarrow> False)"

text \<open>
  \<^verbatim>\<open>handleClick(e)\<close>: the event contributes the mouse position. The click callbacks
  are the host's and are not part of the engine.
\<close>

definition handleClick :: "engine \<Rightarrow> point \<Rightarrow> engine" where
  "handleClick e mousePos =
     (if hasDragged e then e
      else (case getNodeAtPosition e mousePos of
              Some n \<Rightarrow> e\<lparr> selectedConnection := None \<rparr>
            | None \<Rightarrow>
                (case getConnectionAtPosition e mousePos of
                   Some conn \<Rightarrow> e\<lparr> selectedNode := None, selectedConnection := Some conn \<rparr>
                 | None \<Rightarrow> e\<lparr> selectedNode := None, selectedConnection := None \<rparr>)))"

section \<open>The command history of \<^verbatim>\<open>ArchitectureApp\<close>\<close>

text \<open>
  A command is a name and two closures over the application's \<^verbatim>\<open>canvasEngine\<close>
  reference, which may be \<^verbatim>\<open>null\<close> (\<open>None\<close>).
\<close>

record command =
  cmd_name :: string
  cmd_execute :: "engine option \<Rightarrow> engine option"
  cmd_undo :: "engine option \<Rightarrow> engine option"

record app =
  canvasEngine :: "engine option"
  commandHistory :: "command list"
  historyIndex :: int
  maxHistorySize :: int

datatype jsError = TypeError

text \<open>
  \<^verbatim>\<open>Array.prototype.slice(start, end)\<close> on integer arguments: a negative index counts
  from the end, every index is clipped to the array, an absent \<^verbatim>\<open>end\<close> is the length.
\<close>

definition slice :: "'a list \<Rightarrow> int \<Rightarrow> int option \<Rightarrow> 'a list" where
  "slice xs start fin =
     (let len = int (length xs);
          k = (if start < 0 then max (len + start) 0 else min start len);
          final = (case fin of
                     None \<Rightarrow> len
                   | Some en \<Rightarrow> if en < 0 then max (len + en) 0 else min en len)
      in take (nat (final - k)) (drop (nat k) xs))"

definition executeCommand :: "app \<Rightarrow> command \<Rightarrow> app" where
  "executeCommand a c =
     (let eng = cmd_execute c (canvasEngine a);
          truncated = slice (commandHistory a) 0 (Some (historyIndex a + 1));
          pushed = truncated @ [c];
          bounded = (if int (length pushed) > maxHistorySize a
                     then slice pushed (- maxHistorySize a) None
                     else pushed)
      in a\<lparr> canvasEngine := eng,
            commandHistory := bounded,
            historyIndex := int (length bounded) - 1 \<rparr>)"

text \<open>
  \<^verbatim>\<open>undo()\<close> and \<^verbatim>\<open>redo()\<close> return the new state and the toast they show. Reading
  the history outside its bounds gives \<^verbatim>\<open>undefined\<close>, and calling a method on it
  throws.
\<close>

definition undo :: "app \<Rightarrow> jsError + (app \<times> string)" where
  "undo a =
     (if historyIndex a \<ge> 0 then
        (if historyIndex a < int (length (commandHistory a)) then
           (let c = commandHistory a ! nat (historyIndex a)
            in Inr (a\<lparr> canvasEngine := cmd_undo c (canvasEngine a),
                        historyIndex := historyIndex a - 1 \<rparr>,
                    ''Undone: '' @ cmd_name c))
         else Inl TypeError)
      else Inr (a, ''Nothing to undo''))"

definition redo :: "app \<Rightarrow> jsError + (app \<times> string)" where
  "redo a =
     (if historyIndex a < int (length (commandHistory a)) - 1 then
        (let i = historyIndex a + 1
         in if 0 \<le> i then
              (let c = commandHistory a ! nat i
               in Inr (a\<lparr> canvasEngine := cmd_execute c (canvasEngine a), historyIndex := i \<rparr>,
                       ''Redone: '' @ cmd_name c))
            else Inl TypeError)
      else Inr (a, ''Nothing to redo''))"

text \<open>The state the constructor builds, before the canvas is set up.\<close>

definition newApp :: app where
  "newApp = \<lparr> canvasEngine = None, commandHistory = [], historyIndex = - 1, maxHistorySize = 50 \<rparr>"

text \<open>
  \<^verbatim>\<open>createRemoveNodeCommand(nodeId)\<close>: the node and its incident connections are copied
  when the command is built; \<open>None\<close> is the \<^verbatim>\<open>null\<close> returned for an unknown node.
  \<^verbatim>\<open>undo\<close> calls \<^verbatim>\<open>addConnection(conn.from, conn.to)\<close>, whose first argument is the
  string \<^verbatim>\<open>conn.from\<close> (the second is ignored by \<^verbatim>\<open>addConnection\<close>).
\<close>

definition nodeToData :: "node \<Rightarrow> nodeData" where
  "nodeToData n =
     \<lparr> d_id = Some (nid n), d_x = Some (nx n), d_y = Some (ny n), d_label = Some (label n),
       d_layer = Some (layer n), d_type = Some (ntype n), d_data = Some (ndata n),
       d_extra = nextra n \<rparr>"

definition createRemoveNodeCommand :: "app \<Rightarrow> string \<Rightarrow> string \<Rightarrow> command option" where
  "createRemoveNodeCommand a nodeId generated =
     (case canvasEngine a of
        None \<Rightarrow> None
      | Some eng \<Rightarrow>
          (case map_of (nodes eng) nodeId of
             None \<Rightarrow> None
           | Some n \<Rightarrow>
               (let nodeData = nodeToData n;
                    conns = filter (\<lambda>conn. cfrom conn = nodeId \<or> cto conn = nodeId) (connections eng)
                in Some \<lparr> cmd_name = ''Remove Node: '' @ label n,
                          cmd_execute = map_option (\<lambda>e. removeNode e nodeId),
                          cmd_undo = map_option (\<lambda>e.
                            foldl (\<lambda>e' conn. fst (addConnection e' (JString (cfrom conn)) generated))
                                  (fst (addNode e nodeData generated)) conns) \<rparr>)))"

text \<open>
  \<^verbatim>\<open>createAddNodeCommand(nodeData)\<close>. For data with no or an empty id, \<^verbatim>\<open>addNode\<close> calls
  \<^verbatim>\<open>Utils.generateId()\<close> afresh each time \<^verbatim>\<open>execute\<close> runs: \<open>draw e\<close> is the id it
  returns when \<^verbatim>\<open>execute\<close> runs on engine state \<open>e\<close>. The \<^verbatim>\<open>undo\<close> removes
  \<^verbatim>\<open>nodeData.id\<close>; for data without an id that is \<^verbatim>\<open>removeNode(undefined)\<close>, which
  matches no key, no endpoint and no selected node.
\<close>

definition createAddNodeCommand :: "nodeData \<Rightarrow> (engine \<Rightarrow> string) \<Rightarrow> command" where
  "createAddNodeCommand nodeData draw =
     \<lparr> cmd_name = ''Add Node: '' @ (case d_label nodeData of Some l \<Rightarrow> l | None \<Rightarrow> ''undefined''),
       cmd_execute = map_option (\<lambda>e. fst (addNode e nodeData (draw e))),
       cmd_undo = map_option (\<lambda>e. case d_id nodeData of Some i \<Rightarrow> removeNode e i | None \<Rightarrow> e) \<rparr>"

section \<open>Sessions and sample scenes\<close>

text \<open>
  A session is a sequence of history actions issued by the host; it stops at the first
  exception.
\<close>

datatype action = Execute command | Undo | Redo

fun run :: "app \<Rightarrow> action list \<Rightarrow> jsError + app" where
  "run a [] = Inr a"
| "run a (Execute c # rest) = run (executeCommand a c) rest"
| "run a (Undo # rest) = (case undo a of Inl err \<Rightarrow> Inl err | Inr (a', msg) \<Rightarrow> run a' rest)"
| "run a (Redo # rest) = (case redo a of Inl err \<Rightarrow> Inl err | Inr (a', msg) \<Rightarrow> run a' rest)"

text \<open>
  The history invariant: the index points at an entry or is \<open>-1\<close>, and the history
  fits its bound.
\<close>

definition historyInvariant :: "app \<Rightarrow> bool" where
  "historyInvariant a \<longleftrightarrow>
     - 1 \<le> historyIndex a \<and> historyIndex a < int (length (commandHistory a)) \<and>
     int (length (commandHistory a)) \<le> maxHistorySize a"

text \<open>Sample data: two nodes \<open>A\<close> and \<open>B\<close> on one row and a connection from \<open>A\<close> to \<open>B\<close>.\<close>

definition plainNode :: "string \<Rightarrow> real \<Rightarrow> real \<Rightarrow> nodeData" where
  "plainNode i x y =
     \<lparr> d_id = Some i, d_x = Some x, d_y = Some y, d_label = None, d_layer = None,
       d_type = None, d_data = None, d_extra = [] \<rparr>"

definition plainConnection :: "string \<Rightarrow> string \<Rightarrow> string \<Rightarrow> connectionSpec" where
  "plainConnection i f t =
     \<lparr> s_id = Some i, s_from = Some f, s_to = Some t, s_label = None, s_type = None,
       s_extra = [] \<rparr>"

definition twoNodeScene :: engine where
  "twoNodeScene =
     fst (addConnection
            (fst (addNode (fst (addNode newEngine (plainNode ''A'' 0 0) ''g1''))
                          (plainNode ''B'' 300 0) ''g2''))
            (JObject (plainConnection ''c1'' ''A'' ''B'')) ''g3'')"

text \<open>A connection stored before its endpoints exist.\<close>

definition danglingScene :: engine where
  "danglingScene = fst (addConnection newEngine (JObject (plainConnection ''c1'' ''A'' ''B'')) ''g1'')"


text \<open>The connection \<^verbatim>\<open>addConnection\<close> stores for \<open>plainConnection i f t\<close>.\<close>

definition storedConnection :: "string \<Rightarrow> string \<Rightarrow> string \<Rightarrow> connection" where
  "storedConnection i f t =
     \<lparr> cid = i, cfrom = f, cto = t, clabel = [], ctype = ''default'', cextra = [] \<rparr>"

text \<open>The two-node scene after a click on the middle of its connection.\<close>

definition clickedScene :: engine where
  "clickedScene = handleClick twoNodeScene \<lparr> px = 150, py = 0 \<rparr>"

text \<open>Two nodes added one after the other at the same position.\<close>

definition overlapScene :: engine where
  "overlapScene =
     fst (addNode (fst (addNode newEngine (plainNode ''first'' 0 0) ''g1''))
                  (plainNode ''second'' 0 0) ''g2'')"

text \<open>The two-node scene with a third node \<open>C\<close> added on top of \<open>B\<close>.\<close>

definition stackedScene :: engine where
  "stackedScene = fst (addNode twoNodeScene (plainNode ''C'' 300 0) ''g4'')"

text \<open>The node \<^verbatim>\<open>addNode\<close> stores for \<open>plainNode i x y\<close>.\<close>

definition storedNode :: "string \<Rightarrow> real \<Rightarrow> real \<Rightarrow> node" where
  "storedNode i x y =
     \<lparr> nid = i, nx = x, ny = y, label = ''Node'', layer = ''default'', ntype = ''default'',
       ndata = [], nextra = [] \<rparr>"

text \<open>A fresh application whose canvas holds the two-node scene.\<close>

definition sceneApp :: app where
  "sceneApp = newApp\<lparr> canvasEngine := Some twoNodeScene \<rparr>"

text \<open>
  Two viewports in doubles (\<open>minZoom\<close> is the binary64 value of the literal \<^verbatim>\<open>0.1\<close>): one
  panned thirty million pixels to the right at zoom 2.75, one panned one pixel at zoom 1.
\<close>

definition farPanScene :: engine where
  "farPanScene =
     newEngine\<lparr> viewport := \<lparr> vx = 30000000, vy = 0, zoom = 11 / 4,
        minZoom = 3602879701896397 / 36028797018963968, maxZoom = 3 \<rparr> \<rparr>"

definition nearPanScene :: engine where
  "nearPanScene =
     newEngine\<lparr> viewport := \<lparr> vx = 1, vy = 0, zoom = 1,
        minZoom = 3602879701896397 / 36028797018963968, maxZoom = 3 \<rparr> \<rparr>"

text \<open>The second viewport at the largest zoom.\<close>

definition zoomedInScene :: engine where
  "zoomedInScene =
     newEngine\<lparr> viewport := \<lparr> vx = 1, vy = 0, zoom = 3,
        minZoom = 3602879701896397 / 36028797018963968, maxZoom = 3 \<rparr> \<rparr>"

text \<open>Four add-node commands, and a history holding three of them with the index at the first.\<close>

definition sampleCommand :: "string \<Rightarrow> command" where
  "sampleCommand i = createAddNodeCommand (plainNode i 0 0) (\<lambda>e. ''g'')"

definition rewoundApp :: app where
  "rewoundApp =
     \<lparr> canvasEngine = Some newEngine,
       commandHistory = [sampleCommand ''n1'', sampleCommand ''n2'', sampleCommand ''n3''],
       historyIndex = 0, maxHistorySize = 50 \<rparr>"

text \<open>A full history of capacity two, with the index at its last entry.\<close>

definition fullApp :: app where
  "fullApp =
     \<lparr> canvasEngine = Some newEngine,
       commandHistory = [sampleCommand ''n1'', sampleCommand ''n2''],
       historyIndex = 1, maxHistorySize = 2 \<rparr>"

section \<open>The viewport over exact arithmetic\<close>

text \<open>
  Without rounding the two transforms are inverse to each other, and the wheel zoom keeps
  the world point under the cursor where it is.
\<close>

lemma worldToScreen_screenToWorld:
  assumes "zoom (viewport e) \<noteq> 0"
  shows "worldToScreen e (screenToWorld e p) = p"
  using assms by (simp add: worldToScreen_def screenToWorld_def)

lemma clamp_zoom_nonzero:
  assumes "minZoom v \<le> zoom v" "zoom v \<le> maxZoom v" "zoom v \<noteq> 0"
  shows "clamp (zoom v * zoomFactor d) (minZoom v) (maxZoom v) \<noteq> 0"
  using assms
  by (auto simp: clamp_def zoomFactor_def min_def max_def split: if_splits)

lemma handleWheel_pivot_exact:
  assumes "minZoom (viewport e) \<le> zoom (viewport e)"
      and "zoom (viewport e) \<le> maxZoom (viewport e)"
      and "zoom (viewport e) \<noteq> 0"
  shows "zoom (viewport (handleWheel e p deltaY)) =
           clamp (zoom (viewport e) * zoomFactor deltaY) (minZoom (viewport e)) (maxZoom (viewport e))
       \<and> screenToWorld (handleWheel e p deltaY) p = screenToWorld e p
       \<and> (clamp (zoom (viewport e) * zoomFactor deltaY) (minZoom (viewport e)) (maxZoom (viewport e))
            = zoom (viewport e) \<longrightarrow> handleWheel e p deltaY = e)"
proof -
  let ?nz = "clamp (zoom (viewport e) * zoomFactor deltaY) (minZoom (viewport e)) (maxZoom (viewport e))"
  have nz: "?nz \<noteq> 0" using assms by (rule clamp_zoom_nonzero)
  have z: "zoom (viewport (handleWheel e p deltaY)) = ?nz"
    by (simp add: handleWheel_def Let_def)
  have w: "screenToWorld (handleWheel e p deltaY) p = screenToWorld e p"
    using nz assms(3) by (simp add: handleWheel_def Let_def screenToWorld_def)
  have u: "?nz = zoom (viewport e) \<longrightarrow> handleWheel e p deltaY = e"
    by (simp add: handleWheel_def Let_def)
  from z w u show ?thesis by blast
qed

section \<open>Rounding to binary64\<close>

text \<open>
  \<open>expo\<close> brackets a non-zero real between two consecutive powers of two, and a rounded
  result is within half a unit in the last place: a relative error of at most \<open>2^-53\<close>,
  or an absolute error of at most \<open>2^-1075\<close> among the subnormal numbers.
\<close>

lemma pow2_powi: "pow2 e = 2 powi e"
  by (simp add: pow2_def power_int_def inverse_eq_divide power_one_over)

lemma pow2_pos: "0 < pow2 e"
  by (simp add: pow2_powi zero_less_power_int)

lemma pow2_add: "pow2 (a + b) = pow2 a * pow2 b"
  by (simp add: pow2_powi power_int_add)

lemma pow2_mono: "a \<le> b \<Longrightarrow> pow2 a \<le> pow2 b"
  by (simp add: pow2_powi power_int_increasing)

lemma pow2_nat: "pow2 (int n) = 2 ^ n"
  by (simp add: pow2_def)

lemma pow2_neg_nat: "pow2 (- int n) = 1 / 2 ^ n"
  by (simp add: pow2_powi power_int_minus_divide)

lemma roundEven_error: "\<bar>of_int (roundEven y) - y\<bar> \<le> 1 / 2"
proof -
  have "of_int \<lfloor>y\<rfloor> \<le> y" "y < of_int \<lfloor>y\<rfloor> + 1" by linarith+
  then show ?thesis by (auto simp: roundEven_def Let_def)
qed

lemma expo_bounds:
  assumes "x \<noteq> 0"
  shows "pow2 (expo x) \<le> \<bar>x\<bar> \<and> \<bar>x\<bar> < pow2 (expo x + 1)"
proof (cases "1 \<le> \<bar>x\<bar>")
  case True
  define n where "n = \<lfloor>\<bar>x\<bar>\<rfloor>"
  have n1: "1 \<le> n" using True by (simp add: n_def le_floor_iff)
  then have b1: "1 \<le> bitlen n" by (simp add: bitlen_alt_def)
  from bitlen_bounds [of n] n1
  have lo: "2 ^ nat (bitlen n - 1) \<le> n" and hi: "n < 2 ^ nat (bitlen n)" by simp_all
  have e: "expo x = bitlen n - 1" using True by (simp add: expo_def n_def)
  have "pow2 (bitlen n - 1) = 2 ^ nat (bitlen n - 1)" using b1 by (simp add: pow2_def)
  also have "\<dots> = of_int (2 ^ nat (bitlen n - 1))" by simp
  also have "\<dots> \<le> of_int n" using lo by (simp only: of_int_le_iff)
  also have "\<dots> \<le> \<bar>x\<bar>" by (simp add: n_def)
  finally have 1: "pow2 (expo x) \<le> \<bar>x\<bar>" by (simp add: e)
  have "n + 1 \<le> 2 ^ nat (bitlen n)" using hi by simp
  then have "of_int (n + 1) \<le> (of_int (2 ^ nat (bitlen n)) :: real)" by (simp only: of_int_le_iff)
  moreover have "\<bar>x\<bar> < of_int (n + 1)" by (simp add: n_def)
  ultimately have "\<bar>x\<bar> < 2 ^ nat (bitlen n)" by simp
  moreover have "pow2 (bitlen n) = 2 ^ nat (bitlen n)" using b1 by (simp add: pow2_def)
  ultimately have 2: "\<bar>x\<bar> < pow2 (expo x + 1)" by (simp add: e)
  from 1 2 show ?thesis ..
next
  case False
  define q where "q = 1 / \<bar>x\<bar>"
  define n where "n = \<lceil>q\<rceil> - 1"
  have xpos: "0 < \<bar>x\<bar>" using assms by simp
  have q1: "1 < q" using False xpos by (simp add: q_def)
  have n1: "1 \<le> n" using q1 unfolding n_def by linarith
  then have b1: "1 \<le> bitlen n" by (simp add: bitlen_alt_def)
  from bitlen_bounds [of n] n1
  have lo: "2 ^ nat (bitlen n - 1) \<le> n" and hi: "n < 2 ^ nat (bitlen n)" by simp_all
  have e: "expo x = - bitlen n" using False by (simp add: expo_def n_def q_def)
  have nq: "of_int n < q" "q \<le> of_int n + 1" unfolding n_def by linarith+
  have "n + 1 \<le> 2 ^ nat (bitlen n)" using hi by simp
  then have "of_int (n + 1) \<le> (of_int (2 ^ nat (bitlen n)) :: real)" by (simp only: of_int_le_iff)
  then have "q \<le> 2 ^ nat (bitlen n)" using nq(2) by simp
  then have "1 / 2 ^ nat (bitlen n) \<le> \<bar>x\<bar>"
    using xpos unfolding q_def by (simp add: field_simps)
  moreover have "pow2 (- bitlen n) = 1 / 2 ^ nat (bitlen n)"
    using b1 by (simp add: pow2_def)
  ultimately have 1: "pow2 (expo x) \<le> \<bar>x\<bar>" by (simp add: e)
  have "(2::real) ^ nat (bitlen n - 1) \<le> of_int n"
    using lo of_int_le_iff [of "2 ^ nat (bitlen n - 1)" n, where ?'a = real] by simp
  then have "2 ^ nat (bitlen n - 1) < q" using nq(1) by linarith
  then have "\<bar>x\<bar> < 1 / 2 ^ nat (bitlen n - 1)"
    using xpos unfolding q_def by (simp add: field_simps)
  moreover have "pow2 (- bitlen n + 1) = 1 / 2 ^ nat (bitlen n - 1)"
  proof (cases "bitlen n = 1")
    case True
    then show ?thesis by (simp add: pow2_def)
  next
    case False
    with b1 have "- bitlen n + 1 < 0" by simp
    moreover have "nat (- (- bitlen n + 1)) = nat (bitlen n - 1)" by simp
    ultimately show ?thesis by (simp add: pow2_def)
  qed
  ultimately have 2: "\<bar>x\<bar> < pow2 (expo x + 1)" by (simp add: e)
  from 1 2 show ?thesis ..
qed

lemma fl_error:
  assumes "fl x = Some r"
  shows "\<bar>r - x\<bar> \<le> \<bar>x\<bar> / 2 ^ 53 + pow2 (- 1075)"
proof (cases "x = 0")
  case True
  with assms have "r = 0" by (simp add: fl_def)
  with True show ?thesis using pow2_pos [of "- 1075"] by simp
next
  case False
  define e where "e = max (expo x) (- 1022)"
  define y where "y = x * pow2 (52 - e)"
  from assms False have r: "r = of_int (roundEven y) * pow2 (e - 52)"
    by (auto simp: fl_def Let_def e_def y_def split: if_splits)
  have "pow2 (52 - e) * pow2 (e - 52) = 1"
    using pow2_add [of "52 - e" "e - 52"] by (simp add: pow2_def)
  then have x: "x = y * pow2 (e - 52)" by (simp add: y_def mult.assoc)
  have "r - y * pow2 (e - 52) = (of_int (roundEven y) - y) * pow2 (e - 52)"
    unfolding r by (simp add: algebra_simps)
  then have "r - x = (of_int (roundEven y) - y) * pow2 (e - 52)"
    by (simp only: x [symmetric])
  then have "\<bar>r - x\<bar> = \<bar>of_int (roundEven y) - y\<bar> * pow2 (e - 52)"
    using pow2_pos [of "e - 52"] by (simp add: abs_mult)
  also have "\<dots> \<le> (1 / 2) * pow2 (e - 52)"
    using roundEven_error [of y] pow2_pos [of "e - 52"] by (intro mult_right_mono) simp_all
  also have "\<dots> = pow2 (e - 53)"
    using pow2_add [of "e - 53" 1] by (simp add: pow2_def)
  finally have b: "\<bar>r - x\<bar> \<le> pow2 (e - 53)" .
  show ?thesis
  proof (cases "expo x \<le> - 1022")
    case True
    then have "e = - 1022" by (simp add: e_def)
    with b have "\<bar>r - x\<bar> \<le> pow2 (- 1075)" by simp
    moreover have "0 \<le> \<bar>x\<bar> / 2 ^ 53" by simp
    ultimately show ?thesis by linarith
  next
    case F: False
    then have "e = expo x" by (simp add: e_def)
    moreover have "pow2 (expo x - 53) = pow2 (expo x) * pow2 (- 53)"
      using pow2_add [of "expo x" "- 53"] by simp
    moreover have "pow2 (- 53) = 1 / 2 ^ 53" by (simp add: pow2_def)
    ultimately have "\<bar>r - x\<bar> \<le> pow2 (expo x) / 2 ^ 53" using b by simp
    also have "\<dots> \<le> \<bar>x\<bar> / 2 ^ 53"
      using expo_bounds [OF False] by (simp add: divide_right_mono)
    finally show ?thesis using pow2_pos [of "- 1075"] by linarith
  qed
qed

text \<open>
  Evaluating \<open>fl\<close> at a given real: the exponent and the rounded significand are supplied
  and checked.
\<close>

lemma pow2_less_imp_less: "pow2 a < pow2 b \<Longrightarrow> a < b"
  using pow2_mono [of b a] by (rule_tac ccontr) simp

lemma expo_unique:
  assumes "pow2 e \<le> \<bar>x\<bar>" "\<bar>x\<bar> < pow2 (e + 1)"
  shows "expo x = e"
proof -
  have "x \<noteq> 0" using assms(1) pow2_pos [of e] by auto
  from expo_bounds [OF this] have b: "pow2 (expo x) \<le> \<bar>x\<bar>" "\<bar>x\<bar> < pow2 (expo x + 1)"
    by simp_all
  have "pow2 e < pow2 (expo x + 1)" using assms(1) b(2) by linarith
  then have "e < expo x + 1" by (rule pow2_less_imp_less)
  moreover have "pow2 (expo x) < pow2 (e + 1)" using assms(2) b(1) by linarith
  then have "expo x < e + 1" by (rule pow2_less_imp_less)
  ultimately show ?thesis by simp
qed

lemma fl_eval:
  assumes "pow2 e \<le> \<bar>x\<bar>" "\<bar>x\<bar> < pow2 (e + 1)" "- 1022 \<le> e" "e \<le> 1022"
    and "roundEven (x * pow2 (52 - e)) = n" "\<bar>n\<bar> \<le> 2 ^ 53"
  shows "fl x = Some (of_int n * pow2 (e - 52))"
proof -
  have x0: "x \<noteq> 0" using assms(1) pow2_pos [of e] by auto
  have e: "max (expo x) (- 1022) = e" using expo_unique [OF assms(1,2)] assms(3) by simp
  have "\<bar>of_int n * pow2 (e - 52)\<bar> = \<bar>of_int n\<bar> * pow2 (e - 52)"
    using pow2_pos [of "e - 52"] by (simp add: abs_mult)
  also have "\<dots> \<le> 2 ^ 53 * pow2 (e - 52)"
  proof -
    have "\<bar>(of_int n :: real)\<bar> \<le> of_int (2 ^ 53)"
      using assms(6) by (metis of_int_abs of_int_le_iff)
    then show ?thesis using pow2_pos [of "e - 52"] by (intro mult_right_mono) simp_all
  qed
  also have "\<dots> = pow2 (e + 1)"
  proof -
    have "pow2 (e + 1) = pow2 53 * pow2 (e - 52)" using pow2_add [of 53 "e - 52"] by (simp add: add.commute)
    moreover have "pow2 53 = 2 ^ 53" by (simp add: pow2_def)
    ultimately show ?thesis by simp
  qed
  also have "\<dots> \<le> pow2 1023" using assms(4) by (intro pow2_mono) simp
  also have "\<dots> < pow2 1024" by (simp add: pow2_def)
  finally have "\<bar>of_int n * pow2 (e - 52)\<bar> < pow2 1024" .
  then show ?thesis using x0 assms(5) by (simp add: fl_def Let_def e)
qed

lemma fl_zero: "fl 0 = Some 0"
  by (simp add: fl_def)

section \<open>Rounding errors along the transforms\<close>

lemma scaled_error:
  fixes w a z \<eta> :: real
  assumes "z \<noteq> 0" "\<bar>w - a / z\<bar> \<le> \<bar>a / z\<bar> / 2 ^ 53 + \<eta>"
  shows "\<bar>w * z - a\<bar> \<le> \<bar>a\<bar> / 2 ^ 53 + \<eta> * \<bar>z\<bar>"
proof -
  have "w * z - a = (w - a / z) * z" using assms(1) by (simp add: algebra_simps)
  then have "\<bar>w * z - a\<bar> = \<bar>w - a / z\<bar> * \<bar>z\<bar>" by (simp add: abs_mult)
  also have "\<dots> \<le> (\<bar>a / z\<bar> / 2 ^ 53 + \<eta>) * \<bar>z\<bar>"
    using assms(2) by (intro mult_right_mono) simp_all
  also have "\<dots> = \<bar>a\<bar> / 2 ^ 53 + \<eta> * \<bar>z\<bar>"
    using assms(1) by (simp add: algebra_simps abs_divide)
  finally show ?thesis .
qed

lemma roundTrip_chain:
  fixes a D w z m r s pan \<eta> :: real
  assumes D: "D = s - pan" and z: "z \<noteq> 0" and \<eta>: "0 \<le> \<eta>"
    and 1: "\<bar>a - D\<bar> \<le> \<bar>D\<bar> / 2 ^ 53 + \<eta>"
    and 2: "\<bar>w - a / z\<bar> \<le> \<bar>a / z\<bar> / 2 ^ 53 + \<eta>"
    and 3: "\<bar>m - w * z\<bar> \<le> \<bar>w * z\<bar> / 2 ^ 53 + \<eta>"
    and 4: "\<bar>r - (m + pan)\<bar> \<le> \<bar>m + pan\<bar> / 2 ^ 53 + \<eta>"
  shows "\<bar>r - s\<bar> \<le> (\<bar>s\<bar> + 4 * \<bar>D\<bar>) / 2 ^ 53 + (4 + 2 * \<bar>z\<bar>) * \<eta>"
proof -
  define x1 where "x1 = \<bar>D\<bar>"
  define x2 where "x2 = \<bar>a - D\<bar>"
  define x3 where "x3 = \<bar>a\<bar>"
  define x4 where "x4 = \<bar>w * z - a\<bar>"
  define x5 where "x5 = \<bar>w * z\<bar>"
  define x6 where "x6 = \<bar>m - w * z\<bar>"
  define x8 where "x8 = \<bar>m - D\<bar>"
  define x9 where "x9 = \<bar>m + pan\<bar>"
  define x10 where "x10 = \<bar>r - (m + pan)\<bar>"
  define x12 where "x12 = \<bar>s\<bar>"
  define t where "t = \<eta> * \<bar>z\<bar>"
  have nn: "0 \<le> x1" "0 \<le> x12" "0 \<le> t"
    using \<eta> by (simp_all add: x1_def x12_def t_def)
  have c2: "x2 \<le> x1 / 2 ^ 53 + \<eta>" using 1 by (simp add: x1_def x2_def)
  have c3: "x3 \<le> x1 + x2" unfolding x1_def x2_def x3_def by linarith
  have c4: "x4 \<le> x3 / 2 ^ 53 + t"
    using scaled_error [OF z 2] by (simp add: x3_def x4_def t_def)
  have c5: "x5 \<le> x3 + x4" unfolding x3_def x4_def x5_def by linarith
  have c6: "x6 \<le> x5 / 2 ^ 53 + \<eta>" using 3 by (simp add: x5_def x6_def)
  have c8: "x8 \<le> x6 + x4 + x2" unfolding x8_def x6_def x4_def x2_def by linarith
  have c9: "x9 \<le> x12 + x8" unfolding x9_def x12_def x8_def D by linarith
  have c10: "x10 \<le> x9 / 2 ^ 53 + \<eta>" using 4 by (simp add: x9_def x10_def)
  have c11: "\<bar>r - s\<bar> \<le> x10 + x8" unfolding x10_def x8_def D by linarith
  define y where "y = \<bar>r - s\<bar>"
  note c11 = c11 [folded y_def]
  have p: "(2::real) ^ 53 = 9007199254740992" by simp
  have "y \<le> x12 / 9007199254740992 + 4 * (x1 / 9007199254740992) + 4 * \<eta> + 2 * t"
    using nn \<eta> c2 c3 c4 c5 c6 c8 c9 c10 c11 unfolding p by linarith
  then have "\<bar>r - s\<bar> \<le> (x12 + 4 * x1) / 2 ^ 53 + 4 * \<eta> + 2 * t"
    by (simp add: y_def add_divide_distrib)
  then show ?thesis by (simp add: x1_def x12_def t_def algebra_simps)
qed

lemma error_div:
  fixes X Y c \<eta> :: real
  assumes "c \<noteq> 0" "\<bar>X - Y\<bar> \<le> \<bar>Y\<bar> / 2 ^ 53 + \<eta>"
  shows "\<bar>X / c - Y / c\<bar> \<le> \<bar>Y / c\<bar> / 2 ^ 53 + \<eta> * (1 / \<bar>c\<bar>)"
proof -
  have "X / c - Y / c = (X - Y) * (1 / c)" by (simp add: algebra_simps diff_divide_distrib)
  then have "\<bar>X / c - Y / c\<bar> = \<bar>X - Y\<bar> * (1 / \<bar>c\<bar>)" by (simp add: abs_mult abs_divide)
  also have "\<dots> \<le> (\<bar>Y\<bar> / 2 ^ 53 + \<eta>) * (1 / \<bar>c\<bar>)"
    using assms(2) by (intro mult_right_mono) simp_all
  also have "\<dots> = \<bar>Y / c\<bar> / 2 ^ 53 + \<eta> * (1 / \<bar>c\<bar>)"
    by (simp add: algebra_simps abs_divide)
  finally show ?thesis .
qed

lemma error_mul:
  fixes X Y c \<eta> :: real
  assumes "\<bar>X - Y\<bar> \<le> \<bar>Y\<bar> / 2 ^ 53 + \<eta>"
  shows "\<bar>c * X - c * Y\<bar> \<le> \<bar>c * Y\<bar> / 2 ^ 53 + \<eta> * \<bar>c\<bar>"
proof -
  have "c * X - c * Y = (X - Y) * c" by (simp add: algebra_simps)
  then have "\<bar>c * X - c * Y\<bar> = \<bar>X - Y\<bar> * \<bar>c\<bar>" by (simp add: abs_mult)
  also have "\<dots> \<le> (\<bar>Y\<bar> / 2 ^ 53 + \<eta>) * \<bar>c\<bar>"
    using assms by (intro mult_right_mono) simp_all
  also have "\<dots> = \<bar>c * Y\<bar> / 2 ^ 53 + \<eta> * \<bar>c\<bar>"
    by (simp add: algebra_simps abs_mult)
  finally show ?thesis .
qed

lemma tri: "\<bar>X\<bar> \<le> \<bar>Y\<bar> + \<bar>X - Y\<bar>" for X Y :: real
  by linarith

lemma tri3: "\<bar>X - W\<bar> \<le> \<bar>X - Y\<bar> + \<bar>Y - Z\<bar> + \<bar>W - Z\<bar>" for X Y Z W :: real
  by linarith

lemma tri4: "\<bar>p - q + r + s\<bar> \<le> \<bar>p\<bar> + \<bar>q\<bar> + \<bar>r\<bar> + \<bar>s\<bar>" for p q r s :: real
  by linarith

lemma pivot_chain:
  fixes a z n P \<rho> t x' a' w w' \<eta> :: real
  assumes z: "z \<noteq> 0" and n: "n \<noteq> 0" and \<eta>: "0 \<le> \<eta>"
    and f1: "\<bar>w - a / z\<bar> \<le> \<bar>a / z\<bar> / 2 ^ 53 + \<eta>"
    and f2: "\<bar>\<rho> - n / z\<bar> \<le> \<bar>n / z\<bar> / 2 ^ 53 + \<eta>"
    and f3: "\<bar>t - a * \<rho>\<bar> \<le> \<bar>a * \<rho>\<bar> / 2 ^ 53 + \<eta>"
    and f4: "\<bar>x' - (P - t)\<bar> \<le> \<bar>P - t\<bar> / 2 ^ 53 + \<eta>"
    and f5: "\<bar>a' - (P - x')\<bar> \<le> \<bar>P - x'\<bar> / 2 ^ 53 + \<eta>"
    and f6: "\<bar>w' - a' / n\<bar> \<le> \<bar>a' / n\<bar> / 2 ^ 53 + \<eta>"
  shows "\<bar>w' - w\<bar> \<le> (7 * \<bar>a / z\<bar> + 2 * \<bar>P / n\<bar>) / 2 ^ 53
                      + (2 * \<bar>a / n\<bar> + 4 / \<bar>n\<bar> + 2) * \<eta>"
proof -
  define A where "A = \<bar>a / z\<bar>"
  define Pn where "Pn = \<bar>P / n\<bar>"
  define g where "g = \<eta> * \<bar>a / n\<bar>"
  define h where "h = \<eta> * (1 / \<bar>n\<bar>)"
  define y0 where "y0 = \<bar>w - a / z\<bar>"
  define y1 where "y1 = \<bar>a * \<rho> / n - a / z\<bar>"
  define q where "q = \<bar>a * \<rho> / n\<bar>"
  define y2 where "y2 = \<bar>t / n - a * \<rho> / n\<bar>"
  define T where "T = \<bar>t / n\<bar>"
  define S where "S = \<bar>(P - t) / n\<bar>"
  define y3 where "y3 = \<bar>x' / n - (P - t) / n\<bar>"
  define K where "K = \<bar>(P - x') / n\<bar>"
  define y4 where "y4 = \<bar>a' / n - (P - x') / n\<bar>"
  define L where "L = \<bar>a' / n\<bar>"
  define y5 where "y5 = \<bar>w' - a' / n\<bar>"
  define d where "d = \<bar>w' - w\<bar>"
  have nn: "0 \<le> A" "0 \<le> Pn" "0 \<le> g" "0 \<le> h"
    using \<eta> by (simp_all add: A_def Pn_def g_def h_def)
  have c0: "y0 \<le> A / 2 ^ 53 + \<eta>" using f1 by (simp add: y0_def A_def)
  have e1: "(a / n) * (n / z) = a / z" using n by simp
  have e2: "(a / n) * \<rho> = a * \<rho> / n" by simp
  have c1: "y1 \<le> A / 2 ^ 53 + g"
    using error_mul [OF f2, of "a / n"] unfolding e1 e2 y1_def A_def g_def .
  have c2: "q \<le> A + y1" unfolding q_def A_def y1_def by (rule tri)
  have c3: "y2 \<le> q / 2 ^ 53 + h"
    using error_div [OF n f3] by (simp add: y2_def q_def h_def)
  have c4: "T \<le> q + y2" unfolding T_def q_def y2_def by (rule tri)
  have "(P - t) / n = P / n - t / n" by (simp add: diff_divide_distrib)
  then have c5: "S \<le> Pn + T" unfolding S_def Pn_def T_def by (simp only: abs_triangle_ineq4)
  have c6: "y3 \<le> S / 2 ^ 53 + h"
    using error_div [OF n f4] by (simp add: y3_def S_def h_def)
  have k: "(P - x') / n = t / n - (x' / n - (P - t) / n)"
    by (simp add: diff_divide_distrib)
  have c7: "K \<le> T + y3" unfolding K_def T_def y3_def k by (rule abs_triangle_ineq4)
  have c8: "y4 \<le> K / 2 ^ 53 + h"
    using error_div [OF n f5] by (simp add: y4_def K_def h_def)
  have s: "a' / n - a / z = (a' / n - (P - x') / n) - (x' / n - (P - t) / n)
             + (t / n - a * \<rho> / n) + (a * \<rho> / n - a / z)"
    by (simp add: diff_divide_distrib)
  have c9: "\<bar>a' / n - a / z\<bar> \<le> y4 + y3 + y2 + y1"
    unfolding y4_def y3_def y2_def y1_def s by (rule tri4)
  have c10: "L \<le> A + (y4 + y3 + y2 + y1)"
    using c9 tri [of "a' / n" "a / z"] unfolding L_def A_def by linarith
  have c11: "y5 \<le> L / 2 ^ 53 + \<eta>" using f6 by (simp add: y5_def L_def)
  have c12: "d \<le> y5 + (y4 + y3 + y2 + y1) + y0"
    using c9 tri3 [of w' w "a' / n" "a / z"] unfolding d_def y5_def y0_def by linarith
  have p: "(2::real) ^ 53 = 9007199254740992" by simp
  have "d \<le> 7 * (A / 9007199254740992) + 2 * (Pn / 9007199254740992) + 2 * g + 4 * h + 2 * \<eta>"
    using nn \<eta> c0 c1 c2 c3 c4 c5 c6 c7 c8 c10 c11 c12 unfolding p by linarith
  then show ?thesis
    by (simp add: d_def A_def Pn_def g_def h_def algebra_simps add_divide_distrib)
qed

lemma roundTrip_coordinate:
  assumes "toWorld64 s pan z = Some w" "toScreen64 w z pan = Some r"
  shows "\<bar>r - s\<bar> \<le> (\<bar>s\<bar> + 4 * \<bar>s - pan\<bar>) / 2 ^ 53 + (4 + 2 * \<bar>z\<bar>) * pow2 (- 1075)"
proof -
  from assms(1) obtain a where a: "fl (s - pan) = Some a" and z: "z \<noteq> 0" and w: "fl (a / z) = Some w"
    by (auto simp: toWorld64_def fsub_def fdiv_def split: Option.bind_splits if_splits)
  from assms(2) obtain m where m: "fl (w * z) = Some m" and r: "fl (m + pan) = Some r"
    by (auto simp: toScreen64_def fmul_def fadd_def split: Option.bind_splits)
  have "0 \<le> pow2 (- 1075)" using pow2_pos [of "- 1075"] by simp
  then show ?thesis
    using fl_error [OF a] fl_error [OF w] fl_error [OF m] fl_error [OF r] z
    by (intro roundTrip_chain [of "s - pan" s pan z _ a w m r]) simp_all
qed

lemma pivot_coordinate:
  assumes a: "fsub P x = Some a" and w: "fdiv a z = Some w"
    and r: "fdiv n z = Some \<rho>" and t: "fmul a \<rho> = Some t" and x': "fsub P t = Some x'"
    and a': "fsub P x' = Some a'" and w': "fdiv a' n = Some w'"
  shows "\<bar>w' - w\<bar> \<le> pivotDrift a z n P"
proof -
  from w have z: "z \<noteq> 0" and fw: "fl (a / z) = Some w"
    by (auto simp: fdiv_def split: if_splits)
  from r have fr: "fl (n / z) = Some \<rho>" by (auto simp: fdiv_def split: if_splits)
  from w' have n: "n \<noteq> 0" and fw': "fl (a' / n) = Some w'"
    by (auto simp: fdiv_def split: if_splits)
  from t have ft: "fl (a * \<rho>) = Some t" by (simp add: fmul_def)
  from x' have fx: "fl (P - t) = Some x'" by (simp add: fsub_def)
  from a' have fa: "fl (P - x') = Some a'" by (simp add: fsub_def)
  have "0 \<le> pow2 (- 1075)" using pow2_pos [of "- 1075"] by simp
  then show ?thesis
    unfolding pivotDrift_def
    using z n fl_error [OF fw] fl_error [OF fr] fl_error [OF ft] fl_error [OF fx]
      fl_error [OF fa] fl_error [OF fw']
    by (intro pivot_chain [of z n _ w a \<rho> t x' P a' w']) simp_all
qed

lemma pivotDrift_nonneg: "0 \<le> pivotDrift a z n m"
  using pow2_pos [of "- 1075"] by (simp add: pivotDrift_def)

lemma handleWheel64_cases:
  assumes "handleWheel64 e p dY = Some e'"
  obtains (same) s where "fmul (zoom (viewport e)) (zoomFactor64 dY) = Some s"
      "clamp s (minZoom (viewport e)) (maxZoom (viewport e)) = zoom (viewport e)" "e' = e"
  | (changed) s \<rho> x' y' where "fmul (zoom (viewport e)) (zoomFactor64 dY) = Some s"
      "clamp s (minZoom (viewport e)) (maxZoom (viewport e)) \<noteq> zoom (viewport e)"
      "fdiv (clamp s (minZoom (viewport e)) (maxZoom (viewport e))) (zoom (viewport e)) = Some \<rho>"
      "zoomToward64 (px p) (vx (viewport e)) \<rho> = Some x'"
      "zoomToward64 (py p) (vy (viewport e)) \<rho> = Some y'"
      "e' = e\<lparr> viewport := (viewport e)\<lparr> vx := x', vy := y',
              zoom := clamp s (minZoom (viewport e)) (maxZoom (viewport e)) \<rparr> \<rparr>"
proof -
  let ?v = "viewport e"
  from assms obtain s where s: "fmul (zoom ?v) (zoomFactor64 dY) = Some s"
    by (cases "fmul (zoom ?v) (zoomFactor64 dY)") (simp_all add: handleWheel64_def Let_def)
  let ?n = "clamp s (minZoom ?v) (maxZoom ?v)"
  show thesis
  proof (cases "?n = zoom ?v")
    case True
    with assms s have "e' = e" by (simp add: handleWheel64_def Let_def)
    with s True show thesis by (rule same)
  next
    case False
    with assms s obtain \<rho> where r: "fdiv ?n (zoom ?v) = Some \<rho>"
      by (cases "fdiv ?n (zoom ?v)") (simp_all add: handleWheel64_def Let_def)
    from assms s False r obtain x' where x: "zoomToward64 (px p) (vx ?v) \<rho> = Some x'"
      by (cases "zoomToward64 (px p) (vx ?v) \<rho>") (simp_all add: handleWheel64_def Let_def)
    from assms s False r x obtain y' where y: "zoomToward64 (py p) (vy ?v) \<rho> = Some y'"
      by (cases "zoomToward64 (py p) (vy ?v) \<rho>") (simp_all add: handleWheel64_def Let_def)
    from assms s False r x y
    have "e' = e\<lparr> viewport := ?v\<lparr> vx := x', vy := y', zoom := ?n \<rparr> \<rparr>"
      by (simp add: handleWheel64_def Let_def)
    with s False r x y show thesis by (rule changed)
  qed
qed

lemma zoomToward64_parts:
  assumes "zoomToward64 m pan r = Some x'"
  obtains a t where "fsub m pan = Some a" "fmul a r = Some t" "fsub m t = Some x'"
  using assms by (auto simp: zoomToward64_def split: Option.bind_splits)

lemma toWorld64_parts:
  assumes "toWorld64 s pan z = Some w"
  obtains a where "fsub s pan = Some a" "fdiv a z = Some w"
  using assms by (auto simp: toWorld64_def split: Option.bind_splits)

lemma screenToWorld64_coords:
  assumes "screenToWorld64 e p = Some w"
  shows "toWorld64 (px p) (vx (viewport e)) (zoom (viewport e)) = Some (px w)"
    and "toWorld64 (py p) (vy (viewport e)) (zoom (viewport e)) = Some (py w)"
  using assms by (auto simp: screenToWorld64_def split: option.splits)

lemma handleWheel64_drift:
  assumes h: "handleWheel64 e p dY = Some e'"
    and w: "screenToWorld64 e p = Some w" and w': "screenToWorld64 e' p = Some w'"
    and ax: "fsub (px p) (vx (viewport e)) = Some ax"
    and ay: "fsub (py p) (vy (viewport e)) = Some ay"
  shows "\<bar>px w' - px w\<bar> \<le> pivotDrift ax (zoom (viewport e)) (zoom (viewport e')) (px p)"
    and "\<bar>py w' - py w\<bar> \<le> pivotDrift ay (zoom (viewport e)) (zoom (viewport e')) (py p)"
proof -
  let ?v = "viewport e"
  from h have "\<bar>px w' - px w\<bar> \<le> pivotDrift ax (zoom ?v) (zoom (viewport e')) (px p)
             \<and> \<bar>py w' - py w\<bar> \<le> pivotDrift ay (zoom ?v) (zoom (viewport e')) (py p)"
  proof (cases rule: handleWheel64_cases)
    case (same s)
    with w w' have "w' = w" by simp
    then show ?thesis by (simp add: pivotDrift_nonneg)
  next
    case (changed s \<rho> x' y')
    let ?n = "clamp s (minZoom ?v) (maxZoom ?v)"
    have v': "vx (viewport e') = x'" "vy (viewport e') = y'" "zoom (viewport e') = ?n"
      by (simp_all add: changed(6))
    from screenToWorld64_coords [OF w] ax ay
    have qx: "fdiv ax (zoom ?v) = Some (px w)" and qy: "fdiv ay (zoom ?v) = Some (py w)"
      by (auto elim!: toWorld64_parts)
    from changed(4) ax obtain tx where tx: "fmul ax \<rho> = Some tx" "fsub (px p) tx = Some x'"
      by (auto elim!: zoomToward64_parts)
    from changed(5) ay obtain ty where ty: "fmul ay \<rho> = Some ty" "fsub (py p) ty = Some y'"
      by (auto elim!: zoomToward64_parts)
    from screenToWorld64_coords(1) [OF w'] obtain ax' where
      cx: "fsub (px p) x' = Some ax'" "fdiv ax' ?n = Some (px w')"
      unfolding v' by (auto elim!: toWorld64_parts)
    from screenToWorld64_coords(2) [OF w'] obtain ay' where
      cy: "fsub (py p) y' = Some ay'" "fdiv ay' ?n = Some (py w')"
      unfolding v' by (auto elim!: toWorld64_parts)
    from pivot_coordinate [OF ax qx changed(3) tx cx] pivot_coordinate [OF ay qy changed(3) ty cy]
    show ?thesis unfolding v' ..
  qed
  then show "\<bar>px w' - px w\<bar> \<le> pivotDrift ax (zoom (viewport e)) (zoom (viewport e')) (px p)"
    and "\<bar>py w' - py w\<bar> \<le> pivotDrift ay (zoom (viewport e)) (zoom (viewport e')) (py p)"
    by simp_all
qed

section \<open>The sample viewports, evaluated in doubles\<close>

lemma farPan_sub: "fsub 5 30000000 = Some (- 29999995)"
  using fl_eval [of "24" "5 - 30000000" "- 8053062337822720"]
  by (simp add: fsub_def pow2_def roundEven_def Let_def)

lemma farPan_div: "fdiv (- 29999995) (11 / 4) = Some (- (5856772609325615 / 536870912))"
  using fl_eval [of "23" "(- 29999995) / (11 / 4)" "- 5856772609325615"]
  by (simp add: fdiv_def pow2_def roundEven_def Let_def)

lemma farPan_mul: "fmul (- (5856772609325615 / 536870912)) (11 / 4) = Some (- (8053062337822721 / 268435456))"
  using fl_eval [of "24" "(- (5856772609325615 / 536870912)) * (11 / 4)" "- 8053062337822721"]
  by (simp add: fmul_def pow2_def roundEven_def Let_def)

lemma farPan_add: "fadd (- (8053062337822721 / 268435456)) 30000000 = Some (1342177279 / 268435456)"
  using fl_eval [of "2" "(- (8053062337822721 / 268435456)) + 30000000" "5629499530018816"]
  by (simp add: fadd_def pow2_def roundEven_def Let_def)

lemma zero_sub: "fsub 0 0 = Some 0"
  by (simp add: fsub_def fl_zero)

lemma farPan_zero_div: "fdiv 0 (11 / 4) = Some 0"
  by (simp add: fdiv_def fl_zero)

lemma farPan_zero_mul: "fmul 0 (11 / 4) = Some 0"
  by (simp add: fmul_def fl_zero)

lemma zero_add: "fadd 0 0 = Some 0"
  by (simp add: fadd_def fl_zero)

lemma nearPan_sub: "fsub 2 1 = Some 1"
  using fl_eval [of "0" "2 - 1" "4503599627370496"]
  by (simp add: fsub_def pow2_def roundEven_def Let_def)

lemma nearPan_div: "fdiv 1 1 = Some 1"
  using fl_eval [of "0" "1 / 1" "4503599627370496"]
  by (simp add: fdiv_def pow2_def roundEven_def Let_def)

lemma nearPan_scale: "fmul 1 (8106479329266893 / 9007199254740992) = Some (8106479329266893 / 9007199254740992)"
  using fl_eval [of "- 1" "1 * (8106479329266893 / 9007199254740992)" "8106479329266893"]
  by (simp add: fmul_def pow2_def roundEven_def Let_def)

lemma nearPan_ratio: "fdiv (8106479329266893 / 9007199254740992) 1 = Some (8106479329266893 / 9007199254740992)"
  using fl_eval [of "- 1" "(8106479329266893 / 9007199254740992) / 1" "8106479329266893"]
  by (simp add: fdiv_def pow2_def roundEven_def Let_def)

lemma nearPan_pan: "fsub 2 (8106479329266893 / 9007199254740992) = Some (2476979795053773 / 2251799813685248)"
  using fl_eval [of "0" "2 - (8106479329266893 / 9007199254740992)" "4953959590107546"]
  by (simp add: fsub_def pow2_def roundEven_def Let_def)

lemma nearPan_zero_times: "fmul 0 (8106479329266893 / 9007199254740992) = Some 0"
  by (simp add: fmul_def fl_zero)

lemma nearPan_sub_after: "fsub 2 (2476979795053773 / 2251799813685248) = Some (2026619832316723 / 2251799813685248)"
  using fl_eval [of "- 1" "2 - (2476979795053773 / 2251799813685248)" "8106479329266892"]
  by (simp add: fsub_def pow2_def roundEven_def Let_def)

lemma nearPan_div_after: "fdiv (2026619832316723 / 2251799813685248) (8106479329266893 / 9007199254740992) = Some (9007199254740991 / 9007199254740992)"
  using fl_eval [of "- 1" "(2026619832316723 / 2251799813685248) / (8106479329266893 / 9007199254740992)" "9007199254740991"]
  by (simp add: fdiv_def pow2_def roundEven_def Let_def)

lemma nearPan_zero_div_after: "fdiv 0 (8106479329266893 / 9007199254740992) = Some 0"
  by (simp add: fdiv_def fl_zero)

lemma nearPan_zero_div: "fdiv 0 1 = Some 0"
  by (simp add: fdiv_def fl_zero)

lemma zoomedIn_scale: "fmul 3 (2476979795053773 / 2251799813685248) = Some (7430939385161319 / 2251799813685248)"
  using fl_eval [of "1" "3 * (2476979795053773 / 2251799813685248)" "7430939385161319"]
  by (simp add: fmul_def pow2_def roundEven_def Let_def)

lemma farPan_world:
  "screenToWorld64 farPanScene \<lparr> px = 5, py = 0 \<rparr>
     = Some \<lparr> px = - (5856772609325615 / 536870912), py = 0 \<rparr>"
  by (simp add: screenToWorld64_def toWorld64_def farPanScene_def
      farPan_sub farPan_div zero_sub farPan_zero_div)

lemma farPan_screen:
  "worldToScreen64 farPanScene \<lparr> px = - (5856772609325615 / 536870912), py = 0 \<rparr>
     = Some \<lparr> px = 1342177279 / 268435456, py = 0 \<rparr>"
  by (simp add: worldToScreen64_def toScreen64_def farPanScene_def
      farPan_mul farPan_add farPan_zero_mul zero_add)

lemma nearPan_world:
  "screenToWorld64 nearPanScene \<lparr> px = 2, py = 0 \<rparr> = Some \<lparr> px = 1, py = 0 \<rparr>"
  by (simp add: screenToWorld64_def toWorld64_def nearPanScene_def
      nearPan_sub nearPan_div zero_sub nearPan_zero_div)

lemma nearPan_wheel:
  "handleWheel64 nearPanScene \<lparr> px = 2, py = 0 \<rparr> 1
     = Some (newEngine\<lparr> viewport := \<lparr> vx = 2476979795053773 / 2251799813685248, vy = 0,
          zoom = 8106479329266893 / 9007199254740992,
          minZoom = 3602879701896397 / 36028797018963968, maxZoom = 3 \<rparr> \<rparr>)"
  by (simp add: handleWheel64_def zoomFactor64_def zoomToward64_def clamp_def nearPanScene_def
      nearPan_scale nearPan_ratio nearPan_sub nearPan_pan zero_sub nearPan_zero_times Let_def)

lemma nearPan_world_after:
  "screenToWorld64
     (newEngine\<lparr> viewport := \<lparr> vx = 2476979795053773 / 2251799813685248, vy = 0,
          zoom = 8106479329266893 / 9007199254740992,
          minZoom = 3602879701896397 / 36028797018963968, maxZoom = 3 \<rparr> \<rparr>)
     \<lparr> px = 2, py = 0 \<rparr>
     = Some \<lparr> px = 9007199254740991 / 9007199254740992, py = 0 \<rparr>"
  by (simp add: screenToWorld64_def toWorld64_def
      nearPan_sub_after nearPan_div_after zero_sub nearPan_zero_div_after)

lemma zoomedIn_wheel:
  "handleWheel64 zoomedInScene \<lparr> px = 2, py = 0 \<rparr> (- 1) = Some zoomedInScene"
  by (simp add: handleWheel64_def zoomFactor64_def clamp_def zoomedInScene_def zoomedIn_scale Let_def)

section \<open>Viewport theorems\<close>

text \<open>
  C4 as stated fails in its floating-point half: with the pan at thirty million pixels
  and zoom 2.75, the round trip of the screen point \<open>(5, 0)\<close> in doubles returns
  \<open>x = 5 - 2^-28\<close>, which is further than \<open>10^-9\<close> from 5.
\<close>

theorem roundTrip64_counterexample:
  "zoom (viewport farPanScene) \<noteq> 0
   \<and> roundTrip64 farPanScene \<lparr> px = 5, py = 0 \<rparr> = Some \<lparr> px = 1342177279 / 268435456, py = 0 \<rparr>
   \<and> \<bar>1342177279 / 268435456 - (5::real)\<bar> > 1 / 10 ^ 9"
  by (simp add: roundTrip64_def farPan_world farPan_screen) (simp add: farPanScene_def)

text \<open>
  C4, amended. Inverse transform round-trip: for every viewport with non-zero zoom and
  every screen point \<open>p\<close>, \<open>worldToScreen (screenToWorld p)\<close> is \<open>p\<close> over exact arithmetic.
  In doubles, whenever the round trip yields finite numbers, each coordinate returns to
  within \<open>2^-53 * (\<bar>p\<bar> + 4 * \<bar>p - pan\<bar>) + 2^-1075 * (4 + 2 * \<bar>zoom\<bar>)\<close> of where it started:
  a rounding error that grows with the pan and the screen coordinate, not a fixed
  \<open>10^-9\<close>.
\<close>

theorem roundTrip_exact_and_rounded:
  "(zoom (viewport e) \<noteq> 0 \<longrightarrow> worldToScreen e (screenToWorld e p) = p)
   \<and> (screenToWorld64 e p = Some w \<and> worldToScreen64 e w = Some r \<longrightarrow>
        \<bar>px r - px p\<bar> \<le> (\<bar>px p\<bar> + 4 * \<bar>px p - vx (viewport e)\<bar>) / 2 ^ 53
                           + (4 + 2 * \<bar>zoom (viewport e)\<bar>) * pow2 (- 1075)
        \<and> \<bar>py r - py p\<bar> \<le> (\<bar>py p\<bar> + 4 * \<bar>py p - vy (viewport e)\<bar>) / 2 ^ 53
                           + (4 + 2 * \<bar>zoom (viewport e)\<bar>) * pow2 (- 1075))"
proof -
  have 1: "zoom (viewport e) \<noteq> 0 \<longrightarrow> worldToScreen e (screenToWorld e p) = p"
    by (simp add: worldToScreen_screenToWorld)
  have 2: "\<bar>px r - px p\<bar> \<le> (\<bar>px p\<bar> + 4 * \<bar>px p - vx (viewport e)\<bar>) / 2 ^ 53
                           + (4 + 2 * \<bar>zoom (viewport e)\<bar>) * pow2 (- 1075)
        \<and> \<bar>py r - py p\<bar> \<le> (\<bar>py p\<bar> + 4 * \<bar>py p - vy (viewport e)\<bar>) / 2 ^ 53
                           + (4 + 2 * \<bar>zoom (viewport e)\<bar>) * pow2 (- 1075)"
    if s: "screenToWorld64 e p = Some w" and t: "worldToScreen64 e w = Some r"
  proof -
    from s have wx: "toWorld64 (px p) (vx (viewport e)) (zoom (viewport e)) = Some (px w)"
      and wy: "toWorld64 (py p) (vy (viewport e)) (zoom (viewport e)) = Some (py w)"
      by (auto simp: screenToWorld64_def split: option.splits)
    from t have rx: "toScreen64 (px w) (zoom (viewport e)) (vx (viewport e)) = Some (px r)"
      and ry: "toScreen64 (py w) (zoom (viewport e)) (vy (viewport e)) = Some (py r)"
      by (auto simp: worldToScreen64_def split: option.splits)
    from roundTrip_coordinate [OF wx rx] roundTrip_coordinate [OF wy ry] show ?thesis ..
  qed
  from 1 2 show ?thesis by blast
qed

theorem roundTrip_exact_and_rounded_witness:
  "zoom (viewport farPanScene) \<noteq> 0
   \<and> worldToScreen farPanScene (screenToWorld farPanScene \<lparr> px = 5, py = 0 \<rparr>) = \<lparr> px = 5, py = 0 \<rparr>
   \<and> screenToWorld64 farPanScene \<lparr> px = 5, py = 0 \<rparr>
        = Some \<lparr> px = - (5856772609325615 / 536870912), py = 0 \<rparr>
   \<and> worldToScreen64 farPanScene \<lparr> px = - (5856772609325615 / 536870912), py = 0 \<rparr>
        = Some \<lparr> px = 1342177279 / 268435456, py = 0 \<rparr>
   \<and> \<bar>1342177279 / 268435456 - 5\<bar>
        \<le> (5 + 4 * 29999995) / 2 ^ 53 + (4 + 2 * (11 / 4)) * pow2 (- 1075)"
proof -
  let ?p = "\<lparr> px = 5, py = 0 \<rparr>"
  let ?w = "\<lparr> px = - (5856772609325615 / 536870912), py = 0 \<rparr>"
  let ?r = "\<lparr> px = 1342177279 / 268435456, py = 0 \<rparr>"
  note t = roundTrip_exact_and_rounded [of farPanScene ?p ?w ?r]
  have z: "zoom (viewport farPanScene) \<noteq> 0" by (simp add: farPanScene_def)
  from t z have a: "worldToScreen farPanScene (screenToWorld farPanScene ?p) = ?p" by blast
  from t farPan_world farPan_screen
  have "\<bar>px ?r - px ?p\<bar> \<le> (\<bar>px ?p\<bar> + 4 * \<bar>px ?p - vx (viewport farPanScene)\<bar>) / 2 ^ 53
                           + (4 + 2 * \<bar>zoom (viewport farPanScene)\<bar>) * pow2 (- 1075)"
    by blast
  then have b: "\<bar>1342177279 / 268435456 - 5\<bar>
        \<le> (5 + 4 * 29999995) / 2 ^ 53 + (4 + 2 * (11 / 4)) * pow2 (- 1075)"
    by (simp add: farPanScene_def)
  from z a farPan_world farPan_screen b show ?thesis by blast
qed

text \<open>
  C3 as stated fails in doubles: with the pan at one pixel and zoom 1, the screen point
  \<open>(2, 0)\<close> lies over the world point \<open>(1, 0)\<close>; after one wheel step out at that point it
  lies over \<open>x = 1 - 2^-53\<close>.
\<close>

theorem handleWheel64_pivot_counterexample:
  "minZoom (viewport nearPanScene) \<le> zoom (viewport nearPanScene)
   \<and> zoom (viewport nearPanScene) \<le> maxZoom (viewport nearPanScene)
   \<and> zoom (viewport nearPanScene) \<noteq> 0
   \<and> screenToWorld64 nearPanScene \<lparr> px = 2, py = 0 \<rparr> = Some \<lparr> px = 1, py = 0 \<rparr>
   \<and> pivotAfterWheel64 nearPanScene \<lparr> px = 2, py = 0 \<rparr> 1
        = Some \<lparr> px = 9007199254740991 / 9007199254740992, py = 0 \<rparr>
   \<and> (9007199254740991 / 9007199254740992 :: real) \<noteq> 1"
  by (simp add: pivotAfterWheel64_def nearPan_world nearPan_wheel nearPan_world_after)
     (simp add: nearPanScene_def)

text \<open>
  C3, amended. Pivot-preserving zoom: over exact arithmetic, for every viewport whose zoom
  lies in \<open>[minZoom, maxZoom]\<close> and is not zero, every screen point \<open>p\<close> and either wheel
  direction, the new zoom is the old zoom times the wheel factor clamped to
  \<open>[minZoom, maxZoom]\<close>, the world point under \<open>p\<close> does not move, and the engine is left as
  it was when the clamped zoom is the current zoom. In doubles, whenever the results are
  finite, the new zoom is the rounded product clamped to \<open>[minZoom, maxZoom]\<close>, the engine
  is left as it was when that equals the current zoom, and each world coordinate under
  \<open>p\<close> moves by no more than the rounding bound \<open>pivotDrift\<close>.
\<close>

theorem handleWheel_zoom_and_pivot:
  "(minZoom (viewport e) \<le> zoom (viewport e) \<and> zoom (viewport e) \<le> maxZoom (viewport e)
      \<and> zoom (viewport e) \<noteq> 0 \<longrightarrow>
      zoom (viewport (handleWheel e p deltaY)) =
        clamp (zoom (viewport e) * zoomFactor deltaY) (minZoom (viewport e)) (maxZoom (viewport e))
      \<and> screenToWorld (handleWheel e p deltaY) p = screenToWorld e p
      \<and> (clamp (zoom (viewport e) * zoomFactor deltaY) (minZoom (viewport e)) (maxZoom (viewport e))
            = zoom (viewport e) \<longrightarrow> handleWheel e p deltaY = e))
   \<and> (handleWheel64 e p deltaY = Some e' \<longrightarrow>
        (\<exists>s. fmul (zoom (viewport e)) (zoomFactor64 deltaY) = Some s
           \<and> zoom (viewport e') = clamp s (minZoom (viewport e)) (maxZoom (viewport e))))
   \<and> (fmul (zoom (viewport e)) (zoomFactor64 deltaY) = Some s
        \<and> clamp s (minZoom (viewport e)) (maxZoom (viewport e)) = zoom (viewport e) \<longrightarrow>
        handleWheel64 e p deltaY = Some e)
   \<and> (handleWheel64 e p deltaY = Some e' \<and> screenToWorld64 e p = Some w
        \<and> screenToWorld64 e' p = Some w'
        \<and> fsub (px p) (vx (viewport e)) = Some ax \<and> fsub (py p) (vy (viewport e)) = Some ay \<longrightarrow>
        \<bar>px w' - px w\<bar> \<le> pivotDrift ax (zoom (viewport e)) (zoom (viewport e')) (px p)
        \<and> \<bar>py w' - py w\<bar> \<le> pivotDrift ay (zoom (viewport e)) (zoom (viewport e')) (py p))"
proof -
  have 1: "minZoom (viewport e) \<le> zoom (viewport e) \<and> zoom (viewport e) \<le> maxZoom (viewport e)
      \<and> zoom (viewport e) \<noteq> 0 \<longrightarrow>
      zoom (viewport (handleWheel e p deltaY)) =
        clamp (zoom (viewport e) * zoomFactor deltaY) (minZoom (viewport e)) (maxZoom (viewport e))
      \<and> screenToWorld (handleWheel e p deltaY) p = screenToWorld e p
      \<and> (clamp (zoom (viewport e) * zoomFactor deltaY) (minZoom (viewport e)) (maxZoom (viewport e))
            = zoom (viewport e) \<longrightarrow> handleWheel e p deltaY = e)"
    using handleWheel_pivot_exact [of e p deltaY] by blast
  have 2: "\<exists>s. fmul (zoom (viewport e)) (zoomFactor64 deltaY) = Some s
           \<and> zoom (viewport e') = clamp s (minZoom (viewport e)) (maxZoom (viewport e))"
    if "handleWheel64 e p deltaY = Some e'"
    using that by (cases rule: handleWheel64_cases) auto
  have 3: "handleWheel64 e p deltaY = Some e"
    if "fmul (zoom (viewport e)) (zoomFactor64 deltaY) = Some s"
      "clamp s (minZoom (viewport e)) (maxZoom (viewport e)) = zoom (viewport e)"
    using that by (simp add: handleWheel64_def Let_def)
  have 4: "\<bar>px w' - px w\<bar> \<le> pivotDrift ax (zoom (viewport e)) (zoom (viewport e')) (px p)
        \<and> \<bar>py w' - py w\<bar> \<le> pivotDrift ay (zoom (viewport e)) (zoom (viewport e')) (py p)"
    if "handleWheel64 e p deltaY = Some e'" "screenToWorld64 e p = Some w"
      "screenToWorld64 e' p = Some w'"
      "fsub (px p) (vx (viewport e)) = Some ax" "fsub (py p) (vy (viewport e)) = Some ay"
    using handleWheel64_drift [OF that] ..
  from 1 2 3 4 show ?thesis by blast
qed

theorem handleWheel_zoom_and_pivot_witness:
  "minZoom (viewport nearPanScene) \<le> zoom (viewport nearPanScene)
   \<and> zoom (viewport nearPanScene) \<le> maxZoom (viewport nearPanScene)
   \<and> zoom (viewport nearPanScene) \<noteq> 0
   \<and> zoom (viewport (handleWheel nearPanScene \<lparr> px = 2, py = 0 \<rparr> 1)) = 9 / 10
   \<and> screenToWorld (handleWheel nearPanScene \<lparr> px = 2, py = 0 \<rparr> 1) \<lparr> px = 2, py = 0 \<rparr>
        = \<lparr> px = 1, py = 0 \<rparr>
   \<and> handleWheel64 nearPanScene \<lparr> px = 2, py = 0 \<rparr> 1
        = Some (newEngine\<lparr> viewport := \<lparr> vx = 2476979795053773 / 2251799813685248, vy = 0,
             zoom = 8106479329266893 / 9007199254740992,
             minZoom = 3602879701896397 / 36028797018963968, maxZoom = 3 \<rparr> \<rparr>)
   \<and> fmul (zoom (viewport nearPanScene)) (zoomFactor64 1)
        = Some (8106479329266893 / 9007199254740992)
   \<and> clamp (8106479329266893 / 9007199254740992) (minZoom (viewport nearPanScene))
          (maxZoom (viewport nearPanScene)) = 8106479329266893 / 9007199254740992
   \<and> fmul (zoom (viewport zoomedInScene)) (zoomFactor64 (- 1))
        = Some (7430939385161319 / 2251799813685248)
   \<and> clamp (7430939385161319 / 2251799813685248) (minZoom (viewport zoomedInScene))
          (maxZoom (viewport zoomedInScene)) = zoom (viewport zoomedInScene)
   \<and> handleWheel64 zoomedInScene \<lparr> px = 2, py = 0 \<rparr> (- 1) = Some zoomedInScene
   \<and> screenToWorld64 nearPanScene \<lparr> px = 2, py = 0 \<rparr> = Some \<lparr> px = 1, py = 0 \<rparr>
   \<and> fsub 2 1 = Some 1
   \<and> \<bar>9007199254740991 / 9007199254740992 - 1\<bar>
        \<le> pivotDrift 1 1 (8106479329266893 / 9007199254740992) 2"
proof -
  let ?p = "\<lparr> px = 2, py = 0 \<rparr>"
  let ?E = "newEngine\<lparr> viewport := \<lparr> vx = 2476979795053773 / 2251799813685248, vy = 0,
             zoom = 8106479329266893 / 9007199254740992,
             minZoom = 3602879701896397 / 36028797018963968, maxZoom = 3 \<rparr> \<rparr>"
  let ?w = "\<lparr> px = 1, py = 0 \<rparr>"
  let ?w' = "\<lparr> px = 9007199254740991 / 9007199254740992, py = 0 \<rparr>"
  note t = handleWheel_zoom_and_pivot [where e = nearPanScene and p = ?p and deltaY = 1
      and e' = ?E and s = "8106479329266893 / 9007199254740992" and w = ?w and w' = ?w'
      and ax = 1 and ay = 0]
  note t' = handleWheel_zoom_and_pivot [where e = zoomedInScene and p = ?p and deltaY = "- 1"
      and s = "7430939385161319 / 2251799813685248"]
  have h1: "minZoom (viewport nearPanScene) \<le> zoom (viewport nearPanScene)"
    and h2: "zoom (viewport nearPanScene) \<le> maxZoom (viewport nearPanScene)"
    and h3: "zoom (viewport nearPanScene) \<noteq> 0"
    by (simp_all add: nearPanScene_def)
  from t h1 h2 h3
  have "zoom (viewport (handleWheel nearPanScene ?p 1)) =
          clamp (zoom (viewport nearPanScene) * zoomFactor 1) (minZoom (viewport nearPanScene))
            (maxZoom (viewport nearPanScene))"
    and "screenToWorld (handleWheel nearPanScene ?p 1) ?p = screenToWorld nearPanScene ?p"
    by blast+
  then have c1: "zoom (viewport (handleWheel nearPanScene ?p 1)) = 9 / 10"
    and c2: "screenToWorld (handleWheel nearPanScene ?p 1) ?p = ?w"
    by (simp_all add: nearPanScene_def clamp_def zoomFactor_def screenToWorld_def)
  have s1: "fmul (zoom (viewport nearPanScene)) (zoomFactor64 1)
        = Some (8106479329266893 / 9007199254740992)"
    by (simp add: nearPanScene_def zoomFactor64_def nearPan_scale)
  have k1: "clamp (8106479329266893 / 9007199254740992) (minZoom (viewport nearPanScene))
          (maxZoom (viewport nearPanScene)) = 8106479329266893 / 9007199254740992"
    by (simp add: nearPanScene_def clamp_def)
  have s2: "fmul (zoom (viewport zoomedInScene)) (zoomFactor64 (- 1))
        = Some (7430939385161319 / 2251799813685248)"
    by (simp add: zoomedInScene_def zoomFactor64_def zoomedIn_scale)
  have k2: "clamp (7430939385161319 / 2251799813685248) (minZoom (viewport zoomedInScene))
          (maxZoom (viewport zoomedInScene)) = zoom (viewport zoomedInScene)"
    by (simp add: zoomedInScene_def clamp_def)
  from t' s2 k2 have n: "handleWheel64 zoomedInScene ?p (- 1) = Some zoomedInScene" by blast
  have ax: "fsub (px ?p) (vx (viewport nearPanScene)) = Some 1"
    and ay: "fsub (py ?p) (vy (viewport nearPanScene)) = Some 0"
    by (simp_all add: nearPanScene_def nearPan_sub zero_sub)
  from t nearPan_wheel nearPan_world nearPan_world_after ax ay
  have "\<bar>px ?w' - px ?w\<bar> \<le> pivotDrift 1 (zoom (viewport nearPanScene)) (zoom (viewport ?E)) (px ?p)"
    by blast
  then have d: "\<bar>9007199254740991 / 9007199254740992 - 1\<bar>
        \<le> pivotDrift 1 1 (8106479329266893 / 9007199254740992) 2"
    by (simp add: nearPanScene_def)
  from h1 h2 h3 c1 c2 nearPan_wheel s1 k1 s2 k2 n nearPan_world nearPan_sub d
  show ?thesis by blast
qed

section \<open>Sample scenes, evaluated\<close>

lemmas scene_defs = twoNodeScene_def danglingScene_def overlapScene_def newEngine_def
  addNode_def addConnection_def plainNode_def plainConnection_def orDefault_def Let_def

lemma twoNodeScene_connections:
  "connections twoNodeScene =
     [\<lparr> cid = ''c1'', cfrom = ''A'', cto = ''B'', clabel = [], ctype = ''default'', cextra = [] \<rparr>]"
  by (simp add: scene_defs)

lemma twoNodeScene_nodes:
  "nodes twoNodeScene =
     [(''A'', \<lparr> nid = ''A'', nx = 0, ny = 0, label = ''Node'', layer = ''default'',
               ntype = ''default'', ndata = [], nextra = [] \<rparr>),
      (''B'', \<lparr> nid = ''B'', nx = 300, ny = 0, label = ''Node'', layer = ''default'',
               ntype = ''default'', ndata = [], nextra = [] \<rparr>)]"
  by (simp add: scene_defs)

lemma twoNodeScene_selectedNode: "selectedNode twoNodeScene = None"
  by (simp add: scene_defs)

lemma twoNodeScene_layers: "layers twoNodeScene = []"
  by (simp add: scene_defs)
lemma twoNodeScene_viewport: "viewport twoNodeScene = \<lparr> vx = 0, vy = 0, zoom = 1, minZoom = 1 / 10, maxZoom = 3 \<rparr>"
  by (simp add: scene_defs)
lemma twoNodeScene_config: "config_nodeSize twoNodeScene = \<lparr> ns_width = 120, ns_height = 80 \<rparr>"
  by (simp add: scene_defs)
lemma twoNodeScene_hasDragged: "\<not> hasDragged twoNodeScene"
  by (simp add: scene_defs)

lemma clickedScene_selectedConnection:
  "selectedConnection clickedScene =
     Some \<lparr> cid = ''c1'', cfrom = ''A'', cto = ''B'', clabel = [], ctype = ''default'', cextra = [] \<rparr>"
  by (simp add: clickedScene_def handleClick_def getNodeAtPosition_def getConnectionAtPosition_def
      screenToWorld_def isLayerVisible_def pointInRect_def nodeRect_def pointToLineDistance_def
      tolerance_def Let_def
      twoNodeScene_nodes twoNodeScene_connections twoNodeScene_layers twoNodeScene_viewport
      twoNodeScene_config twoNodeScene_hasDragged)

section \<open>Scene store theorems\<close>

lemma length_filter_less_iff:
  "length (filter P xs) < length xs \<longleftrightarrow> (\<exists>x\<in>set xs. \<not> P x)"
proof
  assume "length (filter P xs) < length xs"
  then have "filter P xs \<noteq> xs" by auto
  then show "\<exists>x\<in>set xs. \<not> P x" by (simp add: filter_id_conv)
next
  assume "\<exists>x\<in>set xs. \<not> P x"
  then obtain x where "x \<in> set xs" "\<not> P x" by blast
  then show "length (filter P xs) < length xs" by (rule length_filter_less)
qed

lemma count_list_filter_keep:
  "P c \<Longrightarrow> count_list (filter P xs) c = count_list xs c"
  by (induction xs) auto

text \<open>
  C8. Undirected removal: \<open>removeConnection fromId toId\<close> leaves no connection joining the
  two ids in either direction, keeps every other connection (same order, same
  multiplicity), touches nothing but the connection list, and returns true exactly when
  some connection joined the two ids.
\<close>

theorem removeConnection_undirected:
  assumes "removeConnection e fromId toId = (e', removed)"
  shows "(\<forall>c\<in>set (connections e').
            \<not> (cfrom c = fromId \<and> cto c = toId) \<and> \<not> (cfrom c = toId \<and> cto c = fromId))
       \<and> subseq (connections e') (connections e)
       \<and> (\<forall>c. \<not> (cfrom c = fromId \<and> cto c = toId) \<and> \<not> (cfrom c = toId \<and> cto c = fromId)
              \<longrightarrow> count_list (connections e') c = count_list (connections e) c)
       \<and> (removed \<longleftrightarrow>
            (\<exists>c\<in>set (connections e).
               (cfrom c = fromId \<and> cto c = toId) \<or> (cfrom c = toId \<and> cto c = fromId)))
       \<and> e' = e\<lparr> connections := connections e' \<rparr>"
proof -
  let ?keep = "\<lambda>conn. \<not> (cfrom conn = fromId \<and> cto conn = toId) \<and>
                      \<not> (cfrom conn = toId \<and> cto conn = fromId)"
  from assms have e': "e' = e\<lparr> connections := filter ?keep (connections e) \<rparr>"
    and r: "removed \<longleftrightarrow> length (filter ?keep (connections e)) < length (connections e)"
    by (auto simp: removeConnection_def Let_def)
  have c: "connections e' = filter ?keep (connections e)" by (simp add: e')
  have 1: "\<forall>c\<in>set (connections e'). ?keep c" by (simp add: c)
  have 2: "subseq (connections e') (connections e)" by (simp add: c)
  have 3: "\<forall>c. ?keep c \<longrightarrow> count_list (connections e') c = count_list (connections e) c"
    unfolding c using count_list_filter_keep [of ?keep] by blast
  have 4: "removed \<longleftrightarrow> (\<exists>c\<in>set (connections e).
               (cfrom c = fromId \<and> cto c = toId) \<or> (cfrom c = toId \<and> cto c = fromId))"
    unfolding r length_filter_less_iff by blast
  have 5: "e' = e\<lparr> connections := connections e' \<rparr>" by (simp add: e')
  from 1 2 3 4 5 show ?thesis by blast
qed

theorem removeConnection_undirected_witness:
  "removeConnection twoNodeScene ''B'' ''A'' = (twoNodeScene\<lparr> connections := [] \<rparr>, True)
   \<and> (\<exists>c\<in>set (connections twoNodeScene). cfrom c = ''A'' \<and> cto c = ''B'')
   \<and> connections (fst (removeConnection twoNodeScene ''A'' ''C'')) = connections twoNodeScene
   \<and> \<not> snd (removeConnection twoNodeScene ''A'' ''C'')"
  using removeConnection_undirected [of twoNodeScene "''B''" "''A''" "twoNodeScene\<lparr> connections := [] \<rparr>" True]
        removeConnection_undirected [of twoNodeScene "''A''" "''C''"
            "fst (removeConnection twoNodeScene ''A'' ''C'')" "snd (removeConnection twoNodeScene ''A'' ''C'')"]
  by (simp add: removeConnection_def twoNodeScene_connections)

text \<open>
  C7 as stated fails on the last part: removing an absent id is not always without effect.
  In \<open>danglingScene\<close> node \<open>A\<close> is absent, yet \<open>removeNode\<close> deletes the connection
  that names it.
\<close>

theorem removeNode_absent_counterexample:
  "map_of (nodes danglingScene) ''A'' = None \<and> removeNode danglingScene ''A'' \<noteq> danglingScene"
proof -
  have "connections (removeNode danglingScene ''A'') = []"
    by (simp add: removeNode_def scene_defs)
  moreover have "connections danglingScene \<noteq> []"
    by (simp add: scene_defs)
  ultimately have "removeNode danglingScene ''A'' \<noteq> danglingScene" by metis
  moreover have "map_of (nodes danglingScene) ''A'' = None" by (simp add: scene_defs)
  ultimately show ?thesis by simp
qed

lemma delete_absent: "map_of al k = None \<Longrightarrow> AList.delete k al = al"
  by (induction al) (auto simp: AList.delete_eq split: if_splits)

text \<open>
  C7, amended. Cascade delete: after \<open>removeNode i\<close> node \<open>i\<close> is absent, no connection
  has \<open>i\<close> as an endpoint, and the selection is cleared if the selected node carried id
  \<open>i\<close>. On an absent id the node map is unchanged, and nothing at all changes when
  furthermore no connection names \<open>i\<close> and the selected node does not carry id \<open>i\<close>.
  \<open>removeNode\<close> has no failing branch.
\<close>

theorem removeNode_cascade:
  "map_of (nodes (removeNode e i)) i = None
   \<and> (\<forall>c\<in>set (connections (removeNode e i)). cfrom c \<noteq> i \<and> cto c \<noteq> i)
   \<and> (\<forall>n. selectedNode e = Some n \<and> nid n = i \<longrightarrow> selectedNode (removeNode e i) = None)
   \<and> (map_of (nodes e) i = None \<longrightarrow> nodes (removeNode e i) = nodes e)
   \<and> (map_of (nodes e) i = None
        \<and> (\<forall>c\<in>set (connections e). cfrom c \<noteq> i \<and> cto c \<noteq> i)
        \<and> (\<forall>n. selectedNode e = Some n \<longrightarrow> nid n \<noteq> i)
        \<longrightarrow> removeNode e i = e)"
proof -
  have 1: "map_of (nodes (removeNode e i)) i = None"
    by (simp add: removeNode_def AList.delete_conv)
  have 2: "\<forall>c\<in>set (connections (removeNode e i)). cfrom c \<noteq> i \<and> cto c \<noteq> i"
    by (simp add: removeNode_def)
  have 3: "\<forall>n. selectedNode e = Some n \<and> nid n = i \<longrightarrow> selectedNode (removeNode e i) = None"
    by (simp add: removeNode_def)
  have 4: "map_of (nodes e) i = None \<longrightarrow> nodes (removeNode e i) = nodes e"
    by (simp add: removeNode_def delete_absent)
  have 5: "removeNode e i = e"
    if a: "map_of (nodes e) i = None"
      and b: "\<forall>c\<in>set (connections e). cfrom c \<noteq> i \<and> cto c \<noteq> i"
      and c: "\<forall>n. selectedNode e = Some n \<longrightarrow> nid n \<noteq> i"
  proof -
    have n: "AList.delete i (nodes e) = nodes e" using a by (rule delete_absent)
    have f: "filter (\<lambda>conn. cfrom conn \<noteq> i \<and> cto conn \<noteq> i) (connections e) = connections e"
      using b by (simp add: filter_id_conv)
    have s: "(case selectedNode e of Some n \<Rightarrow> if nid n = i then None else Some n | None \<Rightarrow> None)
               = selectedNode e"
      using c by (cases "selectedNode e") auto
    show ?thesis unfolding removeNode_def n f s by simp
  qed
  from 1 2 3 4 5 show ?thesis by blast
qed

theorem removeNode_cascade_witness:
  "map_of (nodes twoNodeScene) ''Z'' = None
   \<and> removeNode twoNodeScene ''Z'' = twoNodeScene
   \<and> map_of (nodes twoNodeScene) ''A'' \<noteq> None
   \<and> map_of (nodes (removeNode twoNodeScene ''A'')) ''A'' = None
   \<and> connections twoNodeScene \<noteq> []
   \<and> connections (removeNode twoNodeScene ''A'') = []
   \<and> selectedNode (removeNode (twoNodeScene\<lparr> selectedNode := map_of (nodes twoNodeScene) ''A'' \<rparr>) ''A'')
        = None"
proof -
  have a: "map_of (nodes twoNodeScene) ''Z'' = None"
    by (simp add: twoNodeScene_nodes)
  have b: "\<forall>c\<in>set (connections twoNodeScene). cfrom c \<noteq> ''Z'' \<and> cto c \<noteq> ''Z''"
    by (simp add: twoNodeScene_connections)
  have c: "\<forall>n. selectedNode twoNodeScene = Some n \<longrightarrow> nid n \<noteq> ''Z''"
    by (simp add: twoNodeScene_selectedNode)
  have 1: "removeNode twoNodeScene ''Z'' = twoNodeScene"
    using removeNode_cascade [of twoNodeScene "''Z''"] a b c by blast
  have 2: "map_of (nodes twoNodeScene) ''A'' \<noteq> None"
    by (simp add: twoNodeScene_nodes)
  have 3: "map_of (nodes (removeNode twoNodeScene ''A'')) ''A'' = None"
    using removeNode_cascade [of twoNodeScene "''A''"] by blast
  have 4: "connections twoNodeScene \<noteq> []"
    by (simp add: twoNodeScene_connections)
  have 5: "connections (removeNode twoNodeScene ''A'') = []"
    by (simp add: removeNode_def twoNodeScene_connections)
  let ?s = "twoNodeScene\<lparr> selectedNode := map_of (nodes twoNodeScene) ''A'' \<rparr>"
  have d: "\<exists>n. selectedNode ?s = Some n \<and> nid n = ''A''"
    by (simp add: twoNodeScene_nodes)
  have 6: "selectedNode (removeNode ?s ''A'') = None"
    using removeNode_cascade [of ?s "''A''"] d by blast
  from a 1 2 3 4 5 6 show ?thesis by blast
qed

text \<open>
  C10 as stated fails for the connection selection: after a click has selected a
  connection, \<open>clearAll\<close> leaves \<open>selectedConnection\<close> set.
\<close>

theorem clearAll_selection_counterexample:
  "selectedConnection (clearAll clickedScene) \<noteq> None"
  by (simp add: clearAll_def clearHighlights_def clickedScene_selectedConnection)

text \<open>
  C10, amended. Frame property of \<open>clearAll\<close>: it empties the node map, the connection
  list, the node selection, the node hover state and all highlight state, and leaves the
  layer registry and the viewport unchanged.
\<close>

theorem clearAll_frame:
  "nodes (clearAll e) = [] \<and> connections (clearAll e) = []
   \<and> selectedNode (clearAll e) = None \<and> hoveredNode (clearAll e) = None
   \<and> highlightedNode (clearAll e) = None \<and> highlightedNodes (clearAll e) = []
   \<and> highlightedConnections (clearAll e) = []
   \<and> layers (clearAll e) = layers e \<and> viewport (clearAll e) = viewport e"
  by (simp add: clearAll_def clearHighlights_def)

section \<open>Command history theorems\<close>

lemma slice_prefix:
  assumes "- 1 \<le> i"
  shows "slice xs 0 (Some (i + 1)) = take (nat (i + 1)) xs"
proof (cases "i + 1 \<le> int (length xs)")
  case True
  with assms show ?thesis by (simp add: slice_def Let_def min_def)
next
  case False
  with assms show ?thesis by (simp add: slice_def Let_def min_def)
qed

lemma slice_suffix:
  assumes "0 < m" "m \<le> int (length xs)"
  shows "slice xs (- m) None = drop (length xs - nat m) xs"
proof -
  have "nat (int (length xs) - m) = length xs - nat m" using assms by simp
  with assms show ?thesis by (simp add: slice_def Let_def max_def)
qed

lemma executeCommand_history:
  assumes "0 < maxHistorySize a" "- 1 \<le> historyIndex a"
  shows "commandHistory (executeCommand a c) =
           drop (length (take (nat (historyIndex a + 1)) (commandHistory a) @ [c]) - nat (maxHistorySize a))
                (take (nat (historyIndex a + 1)) (commandHistory a) @ [c])"
proof -
  let ?pushed = "take (nat (historyIndex a + 1)) (commandHistory a) @ [c]"
  have t: "slice (commandHistory a) 0 (Some (historyIndex a + 1)) = take (nat (historyIndex a + 1)) (commandHistory a)"
    using assms(2) by (rule slice_prefix)
  show ?thesis
  proof (cases "int (length ?pushed) > maxHistorySize a")
    case True
    then have "slice ?pushed (- maxHistorySize a) None = drop (length ?pushed - nat (maxHistorySize a)) ?pushed"
      using assms(1) by (intro slice_suffix) simp_all
    with True show ?thesis by (simp add: executeCommand_def Let_def t)
  next
    case False
    then have "length ?pushed - nat (maxHistorySize a) = 0" by simp
    with False show ?thesis by (simp add: executeCommand_def Let_def t del: length_append)
  qed
qed

lemma executeCommand_index:
  "historyIndex (executeCommand a c) = int (length (commandHistory (executeCommand a c))) - 1"
  by (simp add: executeCommand_def Let_def)

lemma executeCommand_maxHistorySize:
  "maxHistorySize (executeCommand a c) = maxHistorySize a"
  by (simp add: executeCommand_def Let_def)

lemma executeCommand_length:
  assumes "0 < maxHistorySize a" "- 1 \<le> historyIndex a"
  shows "int (length (commandHistory (executeCommand a c))) \<le> maxHistorySize a"
    and "0 < length (commandHistory (executeCommand a c))"
  using assms by (simp_all add: executeCommand_history)

lemma executeCommand_invariant:
  assumes "0 < maxHistorySize a" "- 1 \<le> historyIndex a"
  shows "historyInvariant (executeCommand a c)"
  using executeCommand_length [OF assms, of c]
  by (simp add: historyInvariant_def executeCommand_index executeCommand_maxHistorySize)

lemma undo_invariant:
  assumes "historyInvariant a"
  shows "\<exists>a' msg. undo a = Inr (a', msg) \<and> historyInvariant a' \<and> maxHistorySize a' = maxHistorySize a"
  using assms by (auto simp: undo_def historyInvariant_def Let_def)

lemma redo_invariant:
  assumes "historyInvariant a"
  shows "\<exists>a' msg. redo a = Inr (a', msg) \<and> historyInvariant a' \<and> maxHistorySize a' = maxHistorySize a"
  using assms by (auto simp: redo_def historyInvariant_def Let_def)

lemma run_invariant:
  assumes "0 < maxHistorySize a" "historyInvariant a"
  shows "\<exists>a'. run a acts = Inr a' \<and> historyInvariant a' \<and> maxHistorySize a' = maxHistorySize a"
  using assms
proof (induction acts arbitrary: a)
  case Nil
  then show ?case by simp
next
  case (Cons act acts)
  show ?case
  proof (cases act)
    case (Execute c)
    have "- 1 \<le> historyIndex a" using Cons.prems(2) by (simp add: historyInvariant_def)
    then have "historyInvariant (executeCommand a c)"
      using Cons.prems(1) by (intro executeCommand_invariant)
    moreover have "0 < maxHistorySize (executeCommand a c)"
      using Cons.prems(1) by (simp add: executeCommand_maxHistorySize)
    ultimately obtain a' where "run (executeCommand a c) acts = Inr a'" "historyInvariant a'"
      "maxHistorySize a' = maxHistorySize (executeCommand a c)"
      using Cons.IH by blast
    then show ?thesis by (simp add: Execute executeCommand_maxHistorySize)
  next
    case Undo
    from undo_invariant [OF Cons.prems(2)] obtain a1 msg where
      u: "undo a = Inr (a1, msg)" "historyInvariant a1" "maxHistorySize a1 = maxHistorySize a"
      by blast
    then have "0 < maxHistorySize a1" using Cons.prems(1) by simp
    with u(2) obtain a' where "run a1 acts = Inr a'" "historyInvariant a'"
      "maxHistorySize a' = maxHistorySize a1"
      using Cons.IH by blast
    then show ?thesis by (simp add: Undo u)
  next
    case Redo
    from redo_invariant [OF Cons.prems(2)] obtain a1 msg where
      u: "redo a = Inr (a1, msg)" "historyInvariant a1" "maxHistorySize a1 = maxHistorySize a"
      by blast
    then have "0 < maxHistorySize a1" using Cons.prems(1) by simp
    with u(2) obtain a' where "run a1 acts = Inr a'" "historyInvariant a'"
      "maxHistorySize a' = maxHistorySize a1"
      using Cons.IH by blast
    then show ?thesis by (simp add: Redo u)
  qed
qed

lemma truncation_scenario:
  "run (newApp\<lparr> canvasEngine := eng \<rparr>)
       [Execute c1, Execute c2, Execute c3, Undo, Undo, Execute c4]
     = Inr \<lparr> canvasEngine = cmd_execute c4 (cmd_undo c2 (cmd_undo c3
                 (cmd_execute c3 (cmd_execute c2 (cmd_execute c1 eng))))),
             commandHistory = [c1, c4], historyIndex = 1, maxHistorySize = 50 \<rparr>"
  by (simp add: newApp_def executeCommand_def undo_def slice_def Let_def)

lemma bounded_scenario_execute:
  "run \<lparr> canvasEngine = eng, commandHistory = [], historyIndex = - 1, maxHistorySize = 2 \<rparr>
       [Execute c1, Execute c2, Execute c3]
     = Inr \<lparr> canvasEngine = cmd_execute c3 (cmd_execute c2 (cmd_execute c1 eng)),
             commandHistory = [c2, c3], historyIndex = 1, maxHistorySize = 2 \<rparr>"
  by (simp add: executeCommand_def undo_def slice_def Let_def)

lemma bounded_scenario_undo:
  "run \<lparr> canvasEngine = eng, commandHistory = [c2, c3], historyIndex = 1, maxHistorySize = 2 \<rparr>
       [Undo, Undo]
     = Inr \<lparr> canvasEngine = cmd_undo c2 (cmd_undo c3 eng),
             commandHistory = [c2, c3], historyIndex = - 1, maxHistorySize = 2 \<rparr>"
  by (simp add: undo_def Let_def)

lemma undo_all:
  assumes "historyIndex a = int n - 1" "n \<le> length (commandHistory a)"
  shows "run a (replicate n Undo) =
           Inr (a\<lparr> canvasEngine := fold cmd_undo (rev (take n (commandHistory a))) (canvasEngine a),
                   historyIndex := - 1 \<rparr>)"
  using assms
proof (induction n arbitrary: a)
  case 0
  then show ?case by simp
next
  case (Suc n)
  let ?c = "commandHistory a ! n"
  let ?a1 = "a\<lparr> canvasEngine := cmd_undo ?c (canvasEngine a), historyIndex := historyIndex a - 1 \<rparr>"
  have i: "historyIndex a = int n" using Suc.prems(1) by simp
  have lt: "n < length (commandHistory a)" using Suc.prems(2) by simp
  have u: "undo a = Inr (?a1, ''Undone: '' @ cmd_name ?c)"
    using i lt by (simp add: undo_def Let_def)
  have "run ?a1 (replicate n Undo) =
          Inr (?a1\<lparr> canvasEngine := fold cmd_undo (rev (take n (commandHistory ?a1))) (canvasEngine ?a1),
                     historyIndex := - 1 \<rparr>)"
    using i lt by (intro Suc.IH) simp_all
  moreover have "rev (take (Suc n) (commandHistory a)) = ?c # rev (take n (commandHistory a))"
    using lt by (simp add: take_Suc_conv_app_nth)
  ultimately show ?case by (simp add: u)
qed

text \<open>
  C5. History truncation: executing a command keeps the entries up to the current index,
  discards the later ones and appends the new command (after which the bound of the
  history may evict from the front). Starting from the empty history of capacity 50,
  executing \<open>c1\<close>, \<open>c2\<close>, \<open>c3\<close>, undoing twice and executing \<open>c4\<close> leaves exactly
  \<open>[c1, c4]\<close> with the index at \<open>c4\<close>, and nothing is left to redo.
\<close>

theorem executeCommand_truncates:
  "(- 1 \<le> historyIndex a \<and> historyIndex a + 1 < maxHistorySize a \<longrightarrow>
      commandHistory (executeCommand a c) = take (nat (historyIndex a + 1)) (commandHistory a) @ [c])
   \<and> (- 1 \<le> historyIndex a \<and> 0 < maxHistorySize a \<longrightarrow>
      commandHistory (executeCommand a c) =
        drop (length (take (nat (historyIndex a + 1)) (commandHistory a) @ [c]) - nat (maxHistorySize a))
             (take (nat (historyIndex a + 1)) (commandHistory a) @ [c]))
   \<and> run (newApp\<lparr> canvasEngine := eng \<rparr>)
          [Execute c1, Execute c2, Execute c3, Undo, Undo, Execute c4]
        = Inr \<lparr> canvasEngine = cmd_execute c4 (cmd_undo c2 (cmd_undo c3
                    (cmd_execute c3 (cmd_execute c2 (cmd_execute c1 eng))))),
                commandHistory = [c1, c4], historyIndex = 1, maxHistorySize = 50 \<rparr>
   \<and> redo \<lparr> canvasEngine = eng', commandHistory = [c1, c4], historyIndex = 1, maxHistorySize = 50 \<rparr>
        = Inr (\<lparr> canvasEngine = eng', commandHistory = [c1, c4], historyIndex = 1, maxHistorySize = 50 \<rparr>,
               ''Nothing to redo'')"
proof -
  have 1: "commandHistory (executeCommand a c) = take (nat (historyIndex a + 1)) (commandHistory a) @ [c]"
    if "- 1 \<le> historyIndex a" "historyIndex a + 1 < maxHistorySize a"
  proof -
    have "0 < maxHistorySize a" using that by simp
    moreover have "length (take (nat (historyIndex a + 1)) (commandHistory a) @ [c]) - nat (maxHistorySize a) = 0"
      using that by simp
    ultimately show ?thesis
      using executeCommand_history [of a c] that(1) by (simp del: length_append)
  qed
  have 2: "commandHistory (executeCommand a c) =
        drop (length (take (nat (historyIndex a + 1)) (commandHistory a) @ [c]) - nat (maxHistorySize a))
             (take (nat (historyIndex a + 1)) (commandHistory a) @ [c])"
    if "- 1 \<le> historyIndex a" "0 < maxHistorySize a"
    using that by (intro executeCommand_history)
  have 3: "redo \<lparr> canvasEngine = eng', commandHistory = [c1, c4], historyIndex = 1, maxHistorySize = 50 \<rparr>
        = Inr (\<lparr> canvasEngine = eng', commandHistory = [c1, c4], historyIndex = 1, maxHistorySize = 50 \<rparr>,
               ''Nothing to redo'')"
    by (simp add: redo_def)
  from 1 2 3 truncation_scenario [of eng c1 c2 c3 c4] show ?thesis by blast
qed

theorem executeCommand_truncates_witness:
  "- 1 \<le> historyIndex rewoundApp
   \<and> historyIndex rewoundApp + 1 < maxHistorySize rewoundApp
   \<and> 0 < maxHistorySize rewoundApp
   \<and> commandHistory (executeCommand rewoundApp (sampleCommand ''n4''))
        = [sampleCommand ''n1'', sampleCommand ''n4'']"
proof -
  have a: "- 1 \<le> historyIndex rewoundApp" by (simp add: rewoundApp_def)
  have b: "historyIndex rewoundApp + 1 < maxHistorySize rewoundApp" by (simp add: rewoundApp_def)
  have c: "0 < maxHistorySize rewoundApp" by (simp add: rewoundApp_def)
  have "commandHistory (executeCommand rewoundApp (sampleCommand ''n4''))
          = take (nat (historyIndex rewoundApp + 1)) (commandHistory rewoundApp) @ [sampleCommand ''n4'']"
    using executeCommand_truncates [of rewoundApp "sampleCommand ''n4''"] a b by blast
  then have d: "commandHistory (executeCommand rewoundApp (sampleCommand ''n4''))
        = [sampleCommand ''n1'', sampleCommand ''n4'']"
    by (simp add: rewoundApp_def)
  from a b c d show ?thesis by blast
qed

text \<open>
  C6. Bounded history with graceful underflow: from a state satisfying the history
  invariant, with a positive bound, every sequence of executes, undos and redos runs
  without an exception and leaves a history no longer than \<open>maxHistorySize\<close>. One execute
  keeps the most recent \<open>maxHistorySize\<close> entries of the truncated and extended history
  (the oldest are evicted first) and sets the index to the last entry, so that every kept
  command can be undone, newest first. With bound 2, three executes leave two entries;
  two undos bring the index to \<open>-1\<close>; a third undo reports "Nothing to undo" and
  returns the state as it was.
\<close>

theorem history_bounded:
  "(0 < maxHistorySize a \<and> historyInvariant a \<longrightarrow>
      (\<exists>a'. run a acts = Inr a' \<and> int (length (commandHistory a')) \<le> maxHistorySize a
            \<and> historyInvariant a' \<and> maxHistorySize a' = maxHistorySize a))
   \<and> (0 < maxHistorySize a \<and> - 1 \<le> historyIndex a \<longrightarrow>
        commandHistory (executeCommand a c) =
          drop (length (take (nat (historyIndex a + 1)) (commandHistory a) @ [c]) - nat (maxHistorySize a))
               (take (nat (historyIndex a + 1)) (commandHistory a) @ [c])
        \<and> int (length (commandHistory (executeCommand a c))) \<le> maxHistorySize a
        \<and> historyIndex (executeCommand a c) = int (length (commandHistory (executeCommand a c))) - 1
        \<and> run (executeCommand a c) (replicate (length (commandHistory (executeCommand a c))) Undo)
            = Inr ((executeCommand a c)
                     \<lparr> canvasEngine := fold cmd_undo (rev (commandHistory (executeCommand a c)))
                                             (canvasEngine (executeCommand a c)),
                       historyIndex := - 1 \<rparr>))
   \<and> run \<lparr> canvasEngine = eng, commandHistory = [], historyIndex = - 1, maxHistorySize = 2 \<rparr>
          [Execute c1, Execute c2, Execute c3]
        = Inr \<lparr> canvasEngine = cmd_execute c3 (cmd_execute c2 (cmd_execute c1 eng)),
                commandHistory = [c2, c3], historyIndex = 1, maxHistorySize = 2 \<rparr>
   \<and> run \<lparr> canvasEngine = eng', commandHistory = [c2, c3], historyIndex = 1, maxHistorySize = 2 \<rparr>
          [Undo, Undo]
        = Inr \<lparr> canvasEngine = cmd_undo c2 (cmd_undo c3 eng'),
                commandHistory = [c2, c3], historyIndex = - 1, maxHistorySize = 2 \<rparr>
   \<and> undo \<lparr> canvasEngine = eng'', commandHistory = [c2, c3], historyIndex = - 1, maxHistorySize = 2 \<rparr>
        = Inr (\<lparr> canvasEngine = eng'', commandHistory = [c2, c3], historyIndex = - 1, maxHistorySize = 2 \<rparr>,
               ''Nothing to undo'')"
proof -
  have 1: "\<exists>a'. run a acts = Inr a' \<and> int (length (commandHistory a')) \<le> maxHistorySize a
            \<and> historyInvariant a' \<and> maxHistorySize a' = maxHistorySize a"
    if "0 < maxHistorySize a" "historyInvariant a"
  proof -
    from run_invariant [OF that, of acts] obtain a' where
      r: "run a acts = Inr a'" "historyInvariant a'" "maxHistorySize a' = maxHistorySize a"
      by blast
    then have "int (length (commandHistory a')) \<le> maxHistorySize a"
      by (simp add: historyInvariant_def)
    with r show ?thesis by blast
  qed
  have 2: "commandHistory (executeCommand a c) =
          drop (length (take (nat (historyIndex a + 1)) (commandHistory a) @ [c]) - nat (maxHistorySize a))
               (take (nat (historyIndex a + 1)) (commandHistory a) @ [c])
        \<and> int (length (commandHistory (executeCommand a c))) \<le> maxHistorySize a
        \<and> historyIndex (executeCommand a c) = int (length (commandHistory (executeCommand a c))) - 1
        \<and> run (executeCommand a c) (replicate (length (commandHistory (executeCommand a c))) Undo)
            = Inr ((executeCommand a c)
                     \<lparr> canvasEngine := fold cmd_undo (rev (commandHistory (executeCommand a c)))
                                             (canvasEngine (executeCommand a c)),
                       historyIndex := - 1 \<rparr>)"
    if p: "0 < maxHistorySize a" "- 1 \<le> historyIndex a"
  proof -
    note h = executeCommand_history [OF p, of c]
    note l = executeCommand_length(1) [OF p, of c]
    note i = executeCommand_index [of a c]
    have "run (executeCommand a c) (replicate (length (commandHistory (executeCommand a c))) Undo)
            = Inr ((executeCommand a c)
                     \<lparr> canvasEngine := fold cmd_undo
                          (rev (take (length (commandHistory (executeCommand a c)))
                                     (commandHistory (executeCommand a c))))
                          (canvasEngine (executeCommand a c)),
                       historyIndex := - 1 \<rparr>)"
      using i by (intro undo_all) simp_all
    then have u: "run (executeCommand a c) (replicate (length (commandHistory (executeCommand a c))) Undo)
            = Inr ((executeCommand a c)
                     \<lparr> canvasEngine := fold cmd_undo (rev (commandHistory (executeCommand a c)))
                                             (canvasEngine (executeCommand a c)),
                       historyIndex := - 1 \<rparr>)"
      by simp
    from h l i u show ?thesis by blast
  qed
  have 3: "undo \<lparr> canvasEngine = eng'', commandHistory = [c2, c3], historyIndex = - 1, maxHistorySize = 2 \<rparr>
        = Inr (\<lparr> canvasEngine = eng'', commandHistory = [c2, c3], historyIndex = - 1, maxHistorySize = 2 \<rparr>,
               ''Nothing to undo'')"
    by (simp add: undo_def)
  from 1 2 3 bounded_scenario_execute [of eng c1 c2 c3] bounded_scenario_undo [of eng' c2 c3] show ?thesis by blast
qed

theorem history_bounded_witness:
  "0 < maxHistorySize fullApp \<and> historyInvariant fullApp \<and> - 1 \<le> historyIndex fullApp
   \<and> commandHistory (executeCommand fullApp (sampleCommand ''n3''))
        = [sampleCommand ''n2'', sampleCommand ''n3'']
   \<and> historyIndex (executeCommand fullApp (sampleCommand ''n3'')) = 1
   \<and> (\<exists>a'. run fullApp [Execute (sampleCommand ''n3''), Undo, Undo, Undo, Redo] = Inr a'
            \<and> int (length (commandHistory a')) \<le> 2)"
proof -
  have a: "0 < maxHistorySize fullApp" by (simp add: fullApp_def)
  have b: "historyInvariant fullApp" by (simp add: fullApp_def historyInvariant_def)
  have c: "- 1 \<le> historyIndex fullApp" by (simp add: fullApp_def)
  note t = history_bounded [of fullApp "[Execute (sampleCommand ''n3''), Undo, Undo, Undo, Redo]"
      "sampleCommand ''n3''"]
  from t a c have "commandHistory (executeCommand fullApp (sampleCommand ''n3'')) =
          drop (length (take (nat (historyIndex fullApp + 1)) (commandHistory fullApp) @ [sampleCommand ''n3''])
                  - nat (maxHistorySize fullApp))
               (take (nat (historyIndex fullApp + 1)) (commandHistory fullApp) @ [sampleCommand ''n3''])"
    by blast
  then have d: "commandHistory (executeCommand fullApp (sampleCommand ''n3''))
        = [sampleCommand ''n2'', sampleCommand ''n3'']"
    by (simp add: fullApp_def)
  from t a c have "historyIndex (executeCommand fullApp (sampleCommand ''n3''))
      = int (length (commandHistory (executeCommand fullApp (sampleCommand ''n3'')))) - 1"
    by blast
  then have e: "historyIndex (executeCommand fullApp (sampleCommand ''n3'')) = 1"
    by (simp add: d)
  from t a b have "\<exists>a'. run fullApp [Execute (sampleCommand ''n3''), Undo, Undo, Undo, Redo] = Inr a'
            \<and> int (length (commandHistory a')) \<le> maxHistorySize fullApp"
    by blast
  then have f: "\<exists>a'. run fullApp [Execute (sampleCommand ''n3''), Undo, Undo, Undo, Redo] = Inr a'
            \<and> int (length (commandHistory a')) \<le> 2"
    by (simp add: fullApp_def)
  from a b c d e f show ?thesis by blast
qed

section \<open>Node hit-testing theorems\<close>

lemma nodeScan_first:
  assumes "\<forall>m\<in>set before. \<not> (isLayerVisible e (layer m) \<and> pointInRect w (nodeRect e m))"
      and "isLayerVisible e (layer n)" "pointInRect w (nodeRect e n)"
  shows "nodeScan e w (before @ n # rest) = Some n"
  using assms by (induction before) auto

lemma nodeScan_none:
  assumes "\<forall>m\<in>set ns. \<not> (isLayerVisible e (layer m) \<and> pointInRect w (nodeRect e m))"
  shows "nodeScan e w ns = None"
  using assms by (induction ns) auto

lemma update_absent: "map_of al k = None \<Longrightarrow> AList.update k v al = al @ [(k, v)]"
  by (induction al) (auto split: if_splits)

lemma overlapScene_nodes:
  "nodes overlapScene = [(''first'', storedNode ''first'' 0 0), (''second'', storedNode ''second'' 0 0)]"
  by (simp add: scene_defs storedNode_def)

lemma overlapScene_layers: "layers overlapScene = []"
  by (simp add: scene_defs)

lemma overlapScene_viewport:
  "viewport overlapScene = \<lparr> vx = 0, vy = 0, zoom = 1, minZoom = 1 / 10, maxZoom = 3 \<rparr>"
  by (simp add: scene_defs)

lemma overlapScene_config: "config_nodeSize overlapScene = \<lparr> ns_width = 120, ns_height = 80 \<rparr>"
  by (simp add: scene_defs)

lemmas overlapScene_simps = overlapScene_nodes overlapScene_layers overlapScene_viewport
  overlapScene_config

text \<open>
  C1 as stated fails: in \<open>overlapScene\<close> the nodes \<open>first\<close> and \<open>second\<close> were added in
  that order at the same position, both are visible and both boxes contain the point, and
  \<open>getNodeAtPosition\<close> returns \<open>first\<close>, not the most recently added \<open>second\<close>.
\<close>

theorem getNodeAtPosition_overlap_counterexample:
  "nodes overlapScene = [(''first'', storedNode ''first'' 0 0), (''second'', storedNode ''second'' 0 0)]
   \<and> snd (addNode (fst (addNode newEngine (plainNode ''first'' 0 0) ''g1''))
                  (plainNode ''second'' 0 0) ''g2'') = storedNode ''second'' 0 0
   \<and> isLayerVisible overlapScene (layer (storedNode ''first'' 0 0))
   \<and> isLayerVisible overlapScene (layer (storedNode ''second'' 0 0))
   \<and> pointInRect (screenToWorld overlapScene \<lparr> px = 10, py = 10 \<rparr>)
                  (nodeRect overlapScene (storedNode ''first'' 0 0))
   \<and> pointInRect (screenToWorld overlapScene \<lparr> px = 10, py = 10 \<rparr>)
                  (nodeRect overlapScene (storedNode ''second'' 0 0))
   \<and> getNodeAtPosition overlapScene \<lparr> px = 10, py = 10 \<rparr> = Some (storedNode ''first'' 0 0)
   \<and> getNodeAtPosition overlapScene \<lparr> px = 10, py = 10 \<rparr> \<noteq> Some (storedNode ''second'' 0 0)"
  by (simp add: overlapScene_simps getNodeAtPosition_def isLayerVisible_def pointInRect_def
      nodeRect_def screenToWorld_def storedNode_def addNode_def plainNode_def orDefault_def
      newEngine_def Let_def)

lemma stackedScene_nodes:
  "nodes stackedScene =
     [(''A'', storedNode ''A'' 0 0), (''B'', storedNode ''B'' 300 0), (''C'', storedNode ''C'' 300 0)]"
  by (simp add: stackedScene_def twoNodeScene_nodes addNode_def plainNode_def orDefault_def
      storedNode_def Let_def)

lemma stackedScene_layers: "layers stackedScene = []"
  by (simp add: stackedScene_def twoNodeScene_layers addNode_def Let_def)

lemma stackedScene_viewport:
  "viewport stackedScene = \<lparr> vx = 0, vy = 0, zoom = 1, minZoom = 1 / 10, maxZoom = 3 \<rparr>"
  by (simp add: stackedScene_def twoNodeScene_viewport addNode_def Let_def)

lemma stackedScene_config: "config_nodeSize stackedScene = \<lparr> ns_width = 120, ns_height = 80 \<rparr>"
  by (simp add: stackedScene_def twoNodeScene_config addNode_def Let_def)

text \<open>
  C1, amended. Hit-test precedence: \<open>getNodeAtPosition\<close> returns the first node, in the
  insertion order of the node map, that lies on a visible layer and whose bounding box
  contains the world point, whatever follows it in that order, and \<open>null\<close> when there is
  none. A node added under a new id is last in that order: of two visible overlapping
  nodes it is the one added earlier that is returned.
\<close>

theorem getNodeAtPosition_first:
  "(nodes e = before @ (k, n) # rest
      \<and> (\<forall>m\<in>set (map snd before).
            \<not> (isLayerVisible e (layer m) \<and> pointInRect (screenToWorld e p) (nodeRect e m)))
      \<and> isLayerVisible e (layer n) \<and> pointInRect (screenToWorld e p) (nodeRect e n)
      \<longrightarrow> getNodeAtPosition e p = Some n)
   \<and> ((\<forall>m\<in>set (map snd (nodes e)).
            \<not> (isLayerVisible e (layer m) \<and> pointInRect (screenToWorld e p) (nodeRect e m)))
      \<longrightarrow> getNodeAtPosition e p = None)
   \<and> (d_id d = Some i \<and> i \<noteq> [] \<and> map_of (nodes e) i = None
      \<longrightarrow> nodes (fst (addNode e d g)) = nodes e @ [(i, snd (addNode e d g))])"
proof -
  have 1: "getNodeAtPosition e p = Some n"
    if "nodes e = before @ (k, n) # rest"
      and "\<forall>m\<in>set (map snd before).
            \<not> (isLayerVisible e (layer m) \<and> pointInRect (screenToWorld e p) (nodeRect e m))"
      and "isLayerVisible e (layer n)" "pointInRect (screenToWorld e p) (nodeRect e n)"
  proof -
    have "map snd (nodes e) = map snd before @ n # map snd rest" using that(1) by simp
    then show ?thesis
      unfolding getNodeAtPosition_def Let_def using nodeScan_first [OF that(2-4)] by simp
  qed
  have 2: "getNodeAtPosition e p = None"
    if "\<forall>m\<in>set (map snd (nodes e)).
            \<not> (isLayerVisible e (layer m) \<and> pointInRect (screenToWorld e p) (nodeRect e m))"
    unfolding getNodeAtPosition_def Let_def using that by (rule nodeScan_none)
  have 3: "nodes (fst (addNode e d g)) = nodes e @ [(i, snd (addNode e d g))]"
    if "d_id d = Some i" "i \<noteq> []" "map_of (nodes e) i = None"
    using that by (simp add: addNode_def Let_def update_absent)
  from 1 2 3 show ?thesis by blast
qed

theorem getNodeAtPosition_first_witness:
  "nodes stackedScene = [(''A'', storedNode ''A'' 0 0)] @ (''B'', storedNode ''B'' 300 0) # [(''C'', storedNode ''C'' 300 0)]
   \<and> \<not> pointInRect (screenToWorld stackedScene \<lparr> px = 310, py = 5 \<rparr>) (nodeRect stackedScene (storedNode ''A'' 0 0))
   \<and> isLayerVisible stackedScene (layer (storedNode ''B'' 300 0))
   \<and> pointInRect (screenToWorld stackedScene \<lparr> px = 310, py = 5 \<rparr>) (nodeRect stackedScene (storedNode ''B'' 300 0))
   \<and> pointInRect (screenToWorld stackedScene \<lparr> px = 310, py = 5 \<rparr>) (nodeRect stackedScene (storedNode ''C'' 300 0))
   \<and> getNodeAtPosition stackedScene \<lparr> px = 310, py = 5 \<rparr> = Some (storedNode ''B'' 300 0)
   \<and> getNodeAtPosition stackedScene \<lparr> px = 1000, py = 5 \<rparr> = None
   \<and> map_of (nodes twoNodeScene) ''C'' = None
   \<and> nodes stackedScene = nodes twoNodeScene @ [(''C'', storedNode ''C'' 300 0)]"
proof -
  let ?p = "\<lparr> px = 310, py = 5 \<rparr>"
  let ?q = "\<lparr> px = 1000, py = 5 \<rparr>"
  note ev = stackedScene_layers stackedScene_viewport stackedScene_config isLayerVisible_def
    pointInRect_def nodeRect_def screenToWorld_def storedNode_def
  have a: "nodes stackedScene = [(''A'', storedNode ''A'' 0 0)] @ (''B'', storedNode ''B'' 300 0) # [(''C'', storedNode ''C'' 300 0)]"
    by (simp add: stackedScene_nodes)
  have b: "\<not> pointInRect (screenToWorld stackedScene ?p) (nodeRect stackedScene (storedNode ''A'' 0 0))"
    by (simp add: ev)
  have c: "isLayerVisible stackedScene (layer (storedNode ''B'' 300 0))"
    by (simp add: ev)
  have d: "pointInRect (screenToWorld stackedScene ?p) (nodeRect stackedScene (storedNode ''B'' 300 0))"
    by (simp add: ev)
  have d': "pointInRect (screenToWorld stackedScene ?p) (nodeRect stackedScene (storedNode ''C'' 300 0))"
    by (simp add: ev)
  have b': "\<forall>m\<in>set (map snd [(''A'', storedNode ''A'' 0 0)]).
            \<not> (isLayerVisible stackedScene (layer m) \<and> pointInRect (screenToWorld stackedScene ?p) (nodeRect stackedScene m))"
    using b by simp
  have 1: "getNodeAtPosition stackedScene ?p = Some (storedNode ''B'' 300 0)"
    using getNodeAtPosition_first [of stackedScene "[(''A'', storedNode ''A'' 0 0)]" "''B''"
        "storedNode ''B'' 300 0" "[(''C'', storedNode ''C'' 300 0)]" ?p] a b' c d
    by blast
  have n: "\<forall>m\<in>set (map snd (nodes stackedScene)).
            \<not> (isLayerVisible stackedScene (layer m) \<and> pointInRect (screenToWorld stackedScene ?q) (nodeRect stackedScene m))"
    by (simp add: stackedScene_nodes) (simp add: ev)
  have 2: "getNodeAtPosition stackedScene ?q = None"
    using getNodeAtPosition_first [of stackedScene _ _ _ _ ?q] n by blast
  have f: "map_of (nodes twoNodeScene) ''C'' = None" by (simp add: twoNodeScene_nodes)
  have g: "d_id (plainNode ''C'' 300 0) = Some ''C''" by (simp add: plainNode_def)
  have "nodes (fst (addNode twoNodeScene (plainNode ''C'' 300 0) ''g4''))
          = nodes twoNodeScene @ [(''C'', snd (addNode twoNodeScene (plainNode ''C'' 300 0) ''g4''))]"
    using getNodeAtPosition_first [of twoNodeScene _ _ _ _ _ "plainNode ''C'' 300 0" "''C''" "''g4''"] f g
    by blast
  moreover have "snd (addNode twoNodeScene (plainNode ''C'' 300 0) ''g4'') = storedNode ''C'' 300 0"
    by (simp add: addNode_def plainNode_def orDefault_def storedNode_def Let_def)
  ultimately have 3: "nodes stackedScene = nodes twoNodeScene @ [(''C'', storedNode ''C'' 300 0)]"
    by (simp add: stackedScene_def)
  from a b c d d' 1 2 f 3 show ?thesis by blast
qed

section \<open>Distance to a segment\<close>





lemma square_diff_swap: "(a - b) * (a - b) = (b - a) * (b - a)" for a b :: real
  by (simp add: algebra_simps)






section \<open>Connection hit-testing theorems\<close>

lemma connectionScan_step:
  "connectionScan e w (c # rest) =
     (if connectionHit e w c then Some c else connectionScan e w rest)"
  by (cases "map_of (nodes e) (cfrom c)"; cases "map_of (nodes e) (cto c)")
     (auto simp: connectionHit_def Let_def)



lemma connectionScan_none:
  assumes "\<forall>x\<in>set cs. \<not> connectionHit e w x"
  shows "connectionScan e w cs = None"
  using assms by (induction cs) (simp_all add: connectionScan_step del: connectionScan.simps(2))









section \<open>The remove-node command\<close>

lemma addConnection_string: "addConnection e (JString s) g = (e, None)"
  by (simp add: addConnection_def)

lemma restore_with_strings:
  "foldl (\<lambda>e' conn. fst (addConnection e' (JString (cfrom conn)) g)) e conns = e"
  by (induction conns) (simp_all add: addConnection_string)

lemma removeNodeCommand_undo_general:
  assumes "canvasEngine a = Some e0" "createRemoveNodeCommand a i g = Some c"
  shows "map_option connections (cmd_undo c (cmd_execute c (Some e)))
           = Some (filter (\<lambda>conn. cfrom conn \<noteq> i \<and> cto conn \<noteq> i) (connections e))"
  using assms
  by (auto simp: createRemoveNodeCommand_def Let_def restore_with_strings addNode_def removeNode_def
      split: option.splits)

text \<open>
  C2 asks that \<open>execute\<close> followed by \<open>undo\<close> of the remove-node command bring back the
  node and every connection that was incident to it. The command copies those connections
  when it is built, but its \<open>undo\<close> hands \<^verbatim>\<open>addConnection\<close> the string \<^verbatim>\<open>conn.from\<close>
  instead of a connection object, which \<^verbatim>\<open>addConnection\<close> rejects: no connection comes
  back. In the two-node scene with connection \<open>A \<rightarrow> B\<close>, removing \<open>A\<close> and undoing restores
  node \<open>A\<close> (now last in the node map) and leaves the connection list empty.
\<close>

theorem removeNodeCommand_undo_drops_connections:
  "\<exists>c a' msg.
      createRemoveNodeCommand sceneApp ''A'' ''g'' = Some c
      \<and> undo (executeCommand sceneApp c) = Inr (a', msg)
      \<and> map_option connections (canvasEngine sceneApp) = Some [storedConnection ''c1'' ''A'' ''B'']
      \<and> map_option connections (canvasEngine a') = Some []
      \<and> map_option nodes (canvasEngine a')
           = Some [(''B'', storedNode ''B'' 300 0), (''A'', storedNode ''A'' 0 0)]"
proof -
  obtain c where c: "createRemoveNodeCommand sceneApp ''A'' ''g'' = Some c"
    by (simp add: createRemoveNodeCommand_def sceneApp_def newApp_def twoNodeScene_nodes Let_def)
  have e: "canvasEngine sceneApp = Some twoNodeScene" by (simp add: sceneApp_def newApp_def)
  let ?e1 = "cmd_execute c (Some twoNodeScene)"
  let ?a1 = "executeCommand sceneApp c"
  have a1: "?a1 = \<lparr> canvasEngine = ?e1, commandHistory = [c], historyIndex = 0, maxHistorySize = 50 \<rparr>"
    by (simp add: executeCommand_def sceneApp_def newApp_def slice_def Let_def)
  let ?a2 = "\<lparr> canvasEngine = cmd_undo c ?e1, commandHistory = [c], historyIndex = - 1, maxHistorySize = 50 \<rparr>"
  have u: "undo ?a1 = Inr (?a2, ''Undone: '' @ cmd_name c)"
    unfolding a1 by (simp add: undo_def Let_def)
  have k: "map_option connections (canvasEngine sceneApp) = Some [storedConnection ''c1'' ''A'' ''B'']"
    by (simp add: e twoNodeScene_connections storedConnection_def)
  have l: "map_option connections (canvasEngine ?a2) = Some []"
    using removeNodeCommand_undo_general [OF e c, of twoNodeScene]
    by (simp add: twoNodeScene_connections)
  have n: "map_option nodes (canvasEngine ?a2)
           = Some [(''B'', storedNode ''B'' 300 0), (''A'', storedNode ''A'' 0 0)]"
    using c
    by (auto simp: createRemoveNodeCommand_def sceneApp_def newApp_def twoNodeScene_nodes Let_def
        restore_with_strings addNode_def removeNode_def nodeToData_def orDefault_def storedNode_def)
  from c u k l n show ?thesis by blast
qed

end
